theory Spec2Isabelle
  imports Main
begin

section \<open>Transactions over a DNS zone: a shallow embedding of dns/transaction.py\<close>

text \<open>
  The development follows \<^verbatim>\<open>src/dns/transaction.py\<close> (the class \<^verbatim>\<open>Transaction\<close>) and
  \<^verbatim>\<open>src/dns/_immutable_attr.py\<close> (the mixin \<^verbatim>\<open>_Immutable\<close> and its decorator).
  Python objects live in an explicit heap, because several properties of the
  transaction are about which object is handed out, copied or updated in place.
  Exceptions are values of the type \<open>error\<close>; a method returns its result (or the
  exception it raised) together with the state it left behind.
\<close>

subsection \<open>Names, record data and exceptions\<close>

datatype name = Name string

text \<open>
  Modelled from the spec: \<^verbatim>\<open>dns.name.from_text(text, None)\<close>, the collaborator that
  turns text into a name, and \<^verbatim>\<open>dns.name.empty\<close>. Names are opaque keys.
\<close>

definition from_text :: "string \<Rightarrow> name" where
  "from_text text = Name text"

definition dns_name_empty :: name where
  "dns_name_empty = Name []"

text \<open>
  A record-data value (\<^verbatim>\<open>dns.rdata.Rdata\<close>) carries its class, type and covered type.
  The field \<open>rd_serial\<close> is the \<^verbatim>\<open>serial\<close> attribute that SOA record data has; the
  remaining content is kept as text.
\<close>

record rdata =
  rd_rdclass :: int
  rd_rdtype :: int
  rd_covers :: int
  rd_text :: string
  rd_serial :: int

datatype error =
    ReadOnly
  | DeleteNotExact string
  | KeyError
  | TypeError string
  | ValueError string
  | AttributeError string

text \<open>
  Modelled from the spec: the constants of the collaborating modules that the
  transaction mentions (\<^verbatim>\<open>dns.rdatatype.NONE\<close>, \<^verbatim>\<open>dns.rdatatype.SOA\<close>,
  \<^verbatim>\<open>dns.rdataclass.IN\<close>, and \<^verbatim>\<open>dns.ttl.MAX_TTL\<close>, the maximum legal TTL); the
  modules are not among the sources.
\<close>

definition rdatatype_NONE :: int where "rdatatype_NONE = 0"
definition rdatatype_SOA :: int where "rdatatype_SOA = 6"
definition rdataclass_IN :: int where "rdataclass_IN = 1"
definition MAX_TTL :: int where "MAX_TTL = 2147483647"

subsection \<open>Objects and the heap\<close>

type_synonym addr = nat

datatype pyclass = Rdataset_cls | ImmutableRdataset_cls | RRset_cls

text \<open>
  One record for the three classes of record-set objects. \<open>owner\<close> is the \<^verbatim>\<open>name\<close>
  attribute of an RRset. \<open>immutable_init\<close> is the attribute \<^verbatim>\<open>_immutable_init\<close> of the
  mixin \<^verbatim>\<open>_Immutable\<close>: absent (\<open>None\<close>) or a reference to an object.
\<close>

record rdataset =
  cls :: pyclass
  owner :: "name option"
  rdclass :: int
  rdtype :: int
  covers :: int
  ttl :: int
  items :: "rdata list"
  immutable_init :: "addr option"

type_synonym heap = "rdataset list"

definition alloc :: "heap \<Rightarrow> rdataset \<Rightarrow> addr \<times> heap" where
  "alloc h ob = (length h, h @ [ob])"

text \<open>\<^verbatim>\<open>isinstance(x, dns.rdataset.Rdataset)\<close> holds of all three classes, since
  \<^verbatim>\<open>RRset\<close> and \<^verbatim>\<open>ImmutableRdataset\<close> are subclasses of \<^verbatim>\<open>Rdataset\<close>.\<close>

definition is_RRset :: "heap \<Rightarrow> addr \<Rightarrow> bool" where
  "is_RRset h a = (cls (h ! a) = RRset_cls)"

definition is_ImmutableRdataset :: "heap \<Rightarrow> addr \<Rightarrow> bool" where
  "is_ImmutableRdataset h a = (cls (h ! a) = ImmutableRdataset_cls)"

text \<open>What a record-set holds, whatever its class and wherever it lives.\<close>

definition content :: "rdataset \<Rightarrow> int \<times> int \<times> int \<times> int \<times> rdata list" where
  "content r = (rdclass r, rdtype r, covers r, ttl r, items r)"

definition selector :: "rdataset \<Rightarrow> int \<times> int \<times> int" where
  "selector r = (rdclass r, rdtype r, covers r)"

subsection \<open>The immutable mixin (dns/_immutable_attr.py)\<close>

text \<open>
  \<^verbatim>\<open>_Immutable.__setattr__\<close> and \<^verbatim>\<open>_Immutable.__delattr__\<close>: the assignment is refused
  unless the object carries \<^verbatim>\<open>_immutable_init\<close> and that attribute is the object itself.
  What \<^verbatim>\<open>super().__setattr__(name, value)\<close> (or \<^verbatim>\<open>__delattr__\<close>) would do to the object is
  the parameter \<open>super_op\<close>, so the definitions cover every attribute and every value.
\<close>

definition Immutable_setattr :: "heap \<Rightarrow> addr \<Rightarrow> (rdataset \<Rightarrow> rdataset) \<Rightarrow> (error + unit) \<times> heap" where
  "Immutable_setattr h self super_op =
     (if immutable_init (h ! self) = None \<or> immutable_init (h ! self) \<noteq> Some self
      then (Inl (TypeError ''object doesn't support attribute assignment''), h)
      else (Inr (), h[self := super_op (h ! self)]))"

definition Immutable_delattr :: "heap \<Rightarrow> addr \<Rightarrow> (rdataset \<Rightarrow> rdataset) \<Rightarrow> (error + unit) \<times> heap" where
  "Immutable_delattr h self super_op =
     (if immutable_init (h ! self) = None \<or> immutable_init (h ! self) \<noteq> Some self
      then (Inl (TypeError ''object doesn't support attribute assignment''), h)
      else (Inr (), h[self := super_op (h ! self)]))"

text \<open>
  The truth value of \<^verbatim>\<open>previous\<close> in \<^verbatim>\<open>if not previous\<close>: \<^verbatim>\<open>None\<close> is false, and an
  object that defines \<^verbatim>\<open>__len__\<close> is false when its length is 0.
\<close>

definition truthy_ref :: "heap \<Rightarrow> addr option \<Rightarrow> bool" where
  "truthy_ref h r = (case r of None \<Rightarrow> False | Some a \<Rightarrow> items (h ! a) \<noteq> [])"

text \<open>
  The decorator \<^verbatim>\<open>_immutable_init(f)\<close>: the first initializer of an object marks it
  with \<^verbatim>\<open>_immutable_init\<close>, runs the wrapped \<^verbatim>\<open>__init__\<close>, and in the \<^verbatim>\<open>finally\<close> clause
  removes the mark again, which is what establishes immutability. Removing a mark
  that is no longer there raises \<^verbatim>\<open>AttributeError\<close>, which then is the outcome of the
  call, as an exception raised in a \<^verbatim>\<open>finally\<close> clause is.
\<close>

definition immutable_init_nf ::
  "(heap \<Rightarrow> addr \<Rightarrow> (error + unit) \<times> heap) \<Rightarrow> heap \<Rightarrow> addr \<Rightarrow> (error + unit) \<times> heap" where
  "immutable_init_nf f h self =
     (let previous = immutable_init (h ! self);
          h1 = (if previous = None then h[self := (h ! self)\<lparr>immutable_init := Some self\<rparr>] else h);
          (r, h2) = f h1 self
      in if \<not> truthy_ref h2 previous
         then (if immutable_init (h2 ! self) = None
               then (Inl (AttributeError ''_immutable_init''), h2)
               else (r, h2[self := (h2 ! self)\<lparr>immutable_init := None\<rparr>]))
         else (r, h2))"

subsection \<open>The record-set algebra\<close>

text \<open>
  Modelled from the spec: the Record Set Algebra (\<^verbatim>\<open>dns.set.Set\<close> and
  \<^verbatim>\<open>dns.rdataset.Rdataset\<close>, which are not among the sources). A record-set keeps its
  members in insertion order without repetition; \<^verbatim>\<open>union\<close>, \<^verbatim>\<open>intersection\<close> and
  \<^verbatim>\<open>difference\<close> are pure and return a new object of the receiver's class;
  \<^verbatim>\<open>union_update\<close> and \<^verbatim>\<open>update\<close> change the receiver in place. TTL reconciliation
  (\<^verbatim>\<open>update_ttl\<close>) takes the other TTL when the receiver is empty or the other TTL is
  smaller. Equality compares class, type, covers and the members, not the TTL.
\<close>

definition set_add :: "rdata list \<Rightarrow> rdata \<Rightarrow> rdata list" where
  "set_add xs x = (if x \<in> set xs then xs else xs @ [x])"

definition set_union_update :: "rdata list \<Rightarrow> rdata list \<Rightarrow> rdata list" where
  "set_union_update xs ys = fold (\<lambda>y acc. set_add acc y) ys xs"

definition set_intersection_update :: "rdata list \<Rightarrow> rdata list \<Rightarrow> rdata list" where
  "set_intersection_update xs ys = filter (\<lambda>x. x \<in> set ys) xs"

definition set_difference_update :: "rdata list \<Rightarrow> rdata list \<Rightarrow> rdata list" where
  "set_difference_update xs ys = filter (\<lambda>x. x \<notin> set ys) xs"

definition set_eq :: "rdata list \<Rightarrow> rdata list \<Rightarrow> bool" where
  "set_eq xs ys = (length xs = length ys \<and> list_all (\<lambda>x. x \<in> set ys) xs)"

definition update_ttl :: "rdataset \<Rightarrow> int \<Rightarrow> rdataset" where
  "update_ttl r t = (if items r = [] then r\<lparr>ttl := t\<rparr> else if t < ttl r then r\<lparr>ttl := t\<rparr> else r)"

definition rds_union_update :: "rdataset \<Rightarrow> rdataset \<Rightarrow> rdataset" where
  "rds_union_update r other = (update_ttl r (ttl other))\<lparr>items := set_union_update (items r) (items other)\<rparr>"

definition rds_intersection_update :: "rdataset \<Rightarrow> rdataset \<Rightarrow> rdataset" where
  "rds_intersection_update r other =
     (update_ttl r (ttl other))\<lparr>items := set_intersection_update (items r) (items other)\<rparr>"

definition rds_difference_update :: "rdataset \<Rightarrow> rdataset \<Rightarrow> rdataset" where
  "rds_difference_update r other = r\<lparr>items := set_difference_update (items r) (items other)\<rparr>"

definition rds_eq :: "rdataset \<Rightarrow> rdataset \<Rightarrow> bool" where
  "rds_eq a b = (rdclass a = rdclass b \<and> rdtype a = rdtype b \<and> covers a = covers b
                 \<and> set_eq (items a) (items b))"

text \<open>Modelled from the spec: the constructor
  \<^verbatim>\<open>dns.rdataset.Rdataset(rdclass, rdtype, covers, ttl)\<close>, which makes a new, empty, plain
  record-set.\<close>

definition empty_Rdataset :: "int \<Rightarrow> int \<Rightarrow> int \<Rightarrow> int \<Rightarrow> rdataset" where
  "empty_Rdataset c t cv tt =
     \<lparr>cls = Rdataset_cls, owner = None, rdclass = c, rdtype = t, covers = cv, ttl = tt,
      items = [], immutable_init = None\<rparr>"

definition Rdataset_new :: "heap \<Rightarrow> int \<Rightarrow> int \<Rightarrow> int \<Rightarrow> int \<Rightarrow> addr \<times> heap" where
  "Rdataset_new h c t cv tt = alloc h (empty_Rdataset c t cv tt)"

text \<open>Modelled from the spec: the single-record-data constructor
  \<^verbatim>\<open>dns.rdataset.from_rdata(ttl, rdata)\<close>, which makes a new plain record-set with one
  member.\<close>

definition from_rdata :: "heap \<Rightarrow> int \<Rightarrow> rdata \<Rightarrow> addr \<times> heap" where
  "from_rdata h tt rd =
     alloc h \<lparr>cls = Rdataset_cls, owner = None, rdclass = rd_rdclass rd, rdtype = rd_rdtype rd,
              covers = rd_covers rd, ttl = tt, items = [rd], immutable_init = None\<rparr>"

text \<open>Modelled from the spec: the in-place operations \<^verbatim>\<open>self.union_update(other)\<close> and
  \<^verbatim>\<open>self.update(other)\<close> of a record-set; an immutable receiver refuses with
  \<^verbatim>\<open>TypeError('immutable')\<close>.\<close>

definition Rdataset_union_update :: "heap \<Rightarrow> addr \<Rightarrow> addr \<Rightarrow> (error + unit) \<times> heap" where
  "Rdataset_union_update h self other =
     (if is_ImmutableRdataset h self then (Inl (TypeError ''immutable''), h)
      else if self = other then (Inr (), h)
      else (Inr (), h[self := rds_union_update (h ! self) (h ! other)]))"

definition Rdataset_update :: "heap \<Rightarrow> addr \<Rightarrow> addr \<Rightarrow> (error + unit) \<times> heap" where
  "Rdataset_update h self other = Rdataset_union_update h self other"

text \<open>Modelled from the spec: the pure operations \<^verbatim>\<open>union\<close>, \<^verbatim>\<open>intersection\<close> and
  \<^verbatim>\<open>difference\<close> of a record-set. They allocate their result and leave both operands
  alone.\<close>

definition Rdataset_union :: "heap \<Rightarrow> addr \<Rightarrow> addr \<Rightarrow> addr \<times> heap" where
  "Rdataset_union h self other = alloc h (rds_union_update (h ! self) (h ! other))"

definition Rdataset_intersection :: "heap \<Rightarrow> addr \<Rightarrow> addr \<Rightarrow> addr \<times> heap" where
  "Rdataset_intersection h self other = alloc h (rds_intersection_update (h ! self) (h ! other))"

definition Rdataset_difference :: "heap \<Rightarrow> addr \<Rightarrow> addr \<Rightarrow> addr \<times> heap" where
  "Rdataset_difference h self other = alloc h (rds_difference_update (h ! self) (h ! other))"

text \<open>
  Modelled from the spec: the class \<^verbatim>\<open>dns.rdataset.ImmutableRdataset\<close>, whose definition
  is not among the sources. It mixes \<^verbatim>\<open>_Immutable\<close> into \<^verbatim>\<open>Rdataset\<close>; its \<^verbatim>\<open>__init__\<close>
  copies class, type, covers, TTL and members of the argument into the new object by
  attribute assignment, under the decorator \<^verbatim>\<open>_immutable_init\<close>.
\<close>

fun setattrs :: "heap \<Rightarrow> addr \<Rightarrow> (rdataset \<Rightarrow> rdataset) list \<Rightarrow> (error + unit) \<times> heap" where
  "setattrs h self [] = (Inr (), h)"
| "setattrs h self (u # us) =
     (case Immutable_setattr h self u of
        (Inl e, h1) \<Rightarrow> (Inl e, h1)
      | (Inr _, h1) \<Rightarrow> setattrs h1 self us)"

definition ImmutableRdataset_init :: "rdataset \<Rightarrow> heap \<Rightarrow> addr \<Rightarrow> (error + unit) \<times> heap" where
  "ImmutableRdataset_init src h self =
     setattrs h self
       [\<lambda>ob. ob\<lparr>items := []\<rparr>,
        \<lambda>ob. ob\<lparr>rdclass := rdclass src\<rparr>,
        \<lambda>ob. ob\<lparr>rdtype := rdtype src\<rparr>,
        \<lambda>ob. ob\<lparr>covers := covers src\<rparr>,
        \<lambda>ob. ob\<lparr>ttl := ttl src\<rparr>,
        \<lambda>ob. ob\<lparr>items := items src\<rparr>]"

definition blank :: "pyclass \<Rightarrow> rdataset" where
  "blank c = \<lparr>cls = c, owner = None, rdclass = 0, rdtype = 0, covers = 0, ttl = 0,
              items = [], immutable_init = None\<rparr>"

definition ImmutableRdataset_new :: "heap \<Rightarrow> addr \<Rightarrow> (error + addr) \<times> heap" where
  "ImmutableRdataset_new h src =
     (let (self, h1) = alloc h (blank ImmutableRdataset_cls)
      in case immutable_init_nf (ImmutableRdataset_init (h1 ! src)) h1 self of
           (Inl e, h2) \<Rightarrow> (Inl e, h2)
         | (Inr _, h2) \<Rightarrow> (Inr self, h2))"

subsection \<open>The backend\<close>

text \<open>
  The calls the transaction makes on its backend, recorded in the order they happen.
  A write records the size of the record-set it was given.
\<close>

datatype call =
    GetRdataset name int int int
  | PutRdataset name addr nat
  | DeleteName name
  | DeleteRdataset name int int int
  | NameExists name
  | EndTransaction bool

record state =
  heap :: heap
  zone :: "(name \<times> addr) list"
  calls :: "call list"

text \<open>
  Modelled from the spec: the Backend Contract. \<^verbatim>\<open>Transaction\<close> leaves
  \<^verbatim>\<open>_get_rdataset\<close>, \<^verbatim>\<open>_put_rdataset\<close>, \<^verbatim>\<open>_delete_name\<close>, \<^verbatim>\<open>_delete_rdataset\<close>,
  \<^verbatim>\<open>_name_exists\<close> and \<^verbatim>\<open>_end_transaction\<close> to its subclasses; this is the reference
  in-memory backend: a store from a name and a selector to a record-set object, with
  point lookup, point write (replacing the value at the selector), point delete,
  name delete and an existence check.
\<close>

definition matches :: "heap \<Rightarrow> name \<Rightarrow> int \<Rightarrow> int \<Rightarrow> int \<Rightarrow> name \<times> addr \<Rightarrow> bool" where
  "matches h n c t cv e = (fst e = n \<and> selector (h ! snd e) = (c, t, cv))"

definition lookup :: "state \<Rightarrow> name \<Rightarrow> int \<Rightarrow> int \<Rightarrow> int \<Rightarrow> addr option" where
  "lookup s n c t cv = map_option snd (find (matches (heap s) n c t cv) (zone s))"

definition get_rdataset :: "state \<Rightarrow> name \<Rightarrow> int \<Rightarrow> int \<Rightarrow> int \<Rightarrow> addr option \<times> state" where
  "get_rdataset s n c t cv = (lookup s n c t cv, s\<lparr>calls := calls s @ [GetRdataset n c t cv]\<rparr>)"

definition put_rdataset :: "state \<Rightarrow> name \<Rightarrow> addr \<Rightarrow> state" where
  "put_rdataset s n a =
     s\<lparr>zone := (n, a) # filter (\<lambda>e. \<not> matches (heap s) n (rdclass (heap s ! a)) (rdtype (heap s ! a))
                                        (covers (heap s ! a)) e) (zone s),
       calls := calls s @ [PutRdataset n a (length (items (heap s ! a)))]\<rparr>"

definition delete_name :: "state \<Rightarrow> name \<Rightarrow> state" where
  "delete_name s n = s\<lparr>zone := filter (\<lambda>e. fst e \<noteq> n) (zone s), calls := calls s @ [DeleteName n]\<rparr>"

definition delete_rdataset :: "state \<Rightarrow> name \<Rightarrow> int \<Rightarrow> int \<Rightarrow> int \<Rightarrow> state" where
  "delete_rdataset s n c t cv =
     s\<lparr>zone := filter (\<lambda>e. \<not> matches (heap s) n c t cv e) (zone s),
       calls := calls s @ [DeleteRdataset n c t cv]\<rparr>"

definition name_exists_b :: "state \<Rightarrow> name \<Rightarrow> bool \<times> state" where
  "name_exists_b s n = (list_ex (\<lambda>e. fst e = n) (zone s), s\<lparr>calls := calls s @ [NameExists n]\<rparr>)"

definition end_transaction :: "state \<Rightarrow> bool \<Rightarrow> state" where
  "end_transaction s commit = s\<lparr>calls := calls s @ [EndTransaction commit]\<rparr>"

subsection \<open>The transaction (dns/transaction.py)\<close>

record txn =
  replacement :: bool
  read_only :: bool

text \<open>
  The values a caller can pass in \<^verbatim>\<open>*args\<close>: text, a name, an integer, a record-data
  value, or a reference to a record-set object (of any of the three classes).
\<close>

datatype arg = AText string | AName name | AInt int | ARdata rdata | AObj addr

text \<open>
  Modelled from the spec: \<^verbatim>\<open>RdataClass.make\<close> and \<^verbatim>\<open>RdataType.make\<close> of the
  collaborating enumerations. A numeric code is accepted when it fits in 16 bits; the
  mnemonic tables that convert text are not among the sources, so text is refused here.
\<close>

definition make_code :: "int \<Rightarrow> error + int" where
  "make_code i = (if 0 \<le> i \<and> i \<le> 65535 then Inr i else Inl (ValueError ''value out of range''))"

definition make_arg :: "arg \<Rightarrow> error + int" where
  "make_arg a = (case a of AInt i \<Rightarrow> make_code i | _ \<Rightarrow> Inl (ValueError ''not a numeric code''))"

text \<open>A name given as text is converted; a name is taken as it is.\<close>

definition as_name :: "string + name \<Rightarrow> name" where
  "as_name x = (case x of Inl text \<Rightarrow> from_text text | Inr n \<Rightarrow> n)"

text \<open>\<^verbatim>\<open>Transaction.get\<close>\<close>

definition get ::
  "txn \<Rightarrow> string + name \<Rightarrow> int \<Rightarrow> int \<Rightarrow> int \<Rightarrow> state \<Rightarrow> (error + addr option) \<times> state" where
  "get t name_arg rdclass_arg rdtype_arg cv s =
     (let n = as_name name_arg
      in case make_code rdclass_arg of
           Inl e \<Rightarrow> (Inl e, s)
         | Inr c \<Rightarrow>
             (case make_code rdtype_arg of
                Inl e \<Rightarrow> (Inl e, s)
              | Inr ty \<Rightarrow>
                  (let (found, s1) = get_rdataset s n c ty cv
                   in case found of
                        None \<Rightarrow> (Inr None, s1)
                      | Some a \<Rightarrow>
                          if \<not> is_ImmutableRdataset (heap s1) a
                          then (case ImmutableRdataset_new (heap s1) a of
                                  (Inl e, h2) \<Rightarrow> (Inl e, s1\<lparr>heap := h2\<rparr>)
                                | (Inr a', h2) \<Rightarrow> (Inr (Some a'), s1\<lparr>heap := h2\<rparr>))
                          else (Inr (Some a), s1))))"

text \<open>\<^verbatim>\<open>Transaction._check_read_only\<close>\<close>

definition check_read_only :: "txn \<Rightarrow> error option" where
  "check_read_only t = (if read_only t then Some ReadOnly else None)"

text \<open>\<^verbatim>\<open>Transaction._raise_if_not_empty\<close>\<close>

definition raise_if_not_empty :: "string \<Rightarrow> arg list \<Rightarrow> error option" where
  "raise_if_not_empty method args =
     (if length args \<noteq> 0 then Some (TypeError (''extra parameters to '' @ method)) else None)"

text \<open>
  \<^verbatim>\<open>Transaction._rdataset_from_args\<close>. The result is the record-set (\<open>None\<close> is
  Python's \<^verbatim>\<open>None\<close>, returned when deleting and no argument is left), the arguments
  not yet consumed, and the heap, in which \<^verbatim>\<open>from_rdata\<close> may have made an object.
\<close>

definition rdataset_from_args ::
  "string \<Rightarrow> bool \<Rightarrow> arg list \<Rightarrow> heap \<Rightarrow> (error + addr option) \<times> arg list \<times> heap" where
  "rdataset_from_args method deleting args h =
     (case args of
        [] \<Rightarrow> if deleting then (Inr None, [], h)
              else (Inl (TypeError (method @ '': expected more arguments'')), [], h)
      | AObj a # rest \<Rightarrow> (Inr (Some a), rest, h)
      | a # rest \<Rightarrow>
          if deleting then
            (case a of
               ARdata rd \<Rightarrow> (let (r, h1) = from_rdata h 0 rd in (Inr (Some r), rest, h1))
             | _ \<Rightarrow> (Inl (TypeError (method @ '': expected an Rdata'')), rest, h))
          else
            (case a of
               AInt tt \<Rightarrow>
                 if tt > MAX_TTL then (Inl (ValueError (method @ '': TTL value too big'')), rest, h)
                 else
                   (case rest of
                      [] \<Rightarrow> (Inl (TypeError (method @ '': expected more arguments'')), [], h)
                    | ARdata rd # rest' \<Rightarrow>
                        (let (r, h1) = from_rdata h tt rd in (Inr (Some r), rest', h1))
                    | _ # rest' \<Rightarrow> (Inl (TypeError (method @ '': expected an Rdata'')), rest', h))
             | _ \<Rightarrow> (Inl (TypeError (method @ '': expected a TTL'')), rest, h)))"

text \<open>
  The first half of \<^verbatim>\<open>Transaction._add\<close> (up to \<^verbatim>\<open>_raise_if_not_empty\<close>): the
  arguments become a name and a record-set object. For an RRset a new plain
  \<^verbatim>\<open>Rdataset\<close> is made and filled by \<^verbatim>\<open>union_update\<close>.
\<close>

definition add_args :: "string \<Rightarrow> arg list \<Rightarrow> heap \<Rightarrow> (error + name \<times> addr) \<times> heap" where
  "add_args method args h =
     (case args of
        [] \<Rightarrow> (Inl (TypeError (''not enough parameters to '' @ method)), h)
      | a0 # rest \<Rightarrow>
          (let a = (case a0 of AText text \<Rightarrow> AName (from_text text) | _ \<Rightarrow> a0)
           in case a of
                AName n \<Rightarrow>
                  (case rdataset_from_args method False rest h of
                     (Inl e, _, h1) \<Rightarrow> (Inl e, h1)
                   | (Inr None, _, h1) \<Rightarrow> (Inl (TypeError (method @ '': expected more arguments'')), h1)
                   | (Inr (Some r), rest', h1) \<Rightarrow>
                       (case raise_if_not_empty method rest' of
                          Some e \<Rightarrow> (Inl e, h1)
                        | None \<Rightarrow> (Inr (n, r), h1)))
              | AObj rrset \<Rightarrow>
                  if is_RRset h rrset then
                    (case owner (h ! rrset) of
                       None \<Rightarrow> (Inl (AttributeError ''name''), h)
                     | Some n \<Rightarrow>
                         (let (r, h1) = Rdataset_new h (rdclass (h ! rrset)) (rdtype (h ! rrset))
                                          (covers (h ! rrset)) (ttl (h ! rrset))
                          in case Rdataset_union_update h1 r rrset of
                               (Inl e, h2) \<Rightarrow> (Inl e, h2)
                             | (Inr _, h2) \<Rightarrow>
                                 (case raise_if_not_empty method rest of
                                    Some e \<Rightarrow> (Inl e, h2)
                                  | None \<Rightarrow> (Inr (n, r), h2))))
                  else (Inl (TypeError (method @ '' requires a name or RRset as the first argument'')), h)
              | _ \<Rightarrow> (Inl (TypeError (method @ '' requires a name or RRset as the first argument'')), h)))"

text \<open>
  The second half of \<^verbatim>\<open>Transaction._add\<close>: unless replacing, an existing record-set is
  looked up, copied into a new plain \<^verbatim>\<open>Rdataset\<close> when it is immutable, and united with
  the new one; the result is written.
\<close>

definition add_store :: "bool \<Rightarrow> name \<Rightarrow> addr \<Rightarrow> state \<Rightarrow> (error + unit) \<times> state" where
  "add_store replace n r s =
     (if \<not> replace then
        (let (existing, s1) = get_rdataset s n (rdclass (heap s ! r)) (rdtype (heap s ! r))
                                (covers (heap s ! r))
         in case existing of
              None \<Rightarrow> (Inr (), put_rdataset s1 n r)
            | Some e \<Rightarrow>
                if is_ImmutableRdataset (heap s1) e then
                  (let (trds, h2) = Rdataset_new (heap s1) (rdclass (heap s1 ! e)) (rdtype (heap s1 ! e))
                                      (covers (heap s1 ! e)) 0
                   in case Rdataset_update h2 trds e of
                        (Inl err, h3) \<Rightarrow> (Inl err, s1\<lparr>heap := h3\<rparr>)
                      | (Inr _, h3) \<Rightarrow>
                          (let (u, h4) = Rdataset_union h3 trds r
                           in (Inr (), put_rdataset (s1\<lparr>heap := h4\<rparr>) n u)))
                else
                  (let (u, h2) = Rdataset_union (heap s1) e r
                   in (Inr (), put_rdataset (s1\<lparr>heap := h2\<rparr>) n u)))
      else (Inr (), put_rdataset s n r))"

text \<open>\<^verbatim>\<open>Transaction._add\<close>\<close>

definition add_impl :: "bool \<Rightarrow> arg list \<Rightarrow> state \<Rightarrow> (error + unit) \<times> state" where
  "add_impl replace args s =
     (let method = (if replace then ''replace()'' else ''add()'')
      in case add_args method args (heap s) of
           (Inl e, h1) \<Rightarrow> (Inl e, s\<lparr>heap := h1\<rparr>)
         | (Inr (n, r), h1) \<Rightarrow> add_store replace n r (s\<lparr>heap := h1\<rparr>))"

text \<open>\<^verbatim>\<open>Transaction.add\<close> and \<^verbatim>\<open>Transaction.replace\<close>\<close>

definition add :: "txn \<Rightarrow> arg list \<Rightarrow> state \<Rightarrow> (error + unit) \<times> state" where
  "add t args s =
     (case check_read_only t of Some e \<Rightarrow> (Inl e, s) | None \<Rightarrow> add_impl False args s)"

definition replace :: "txn \<Rightarrow> arg list \<Rightarrow> state \<Rightarrow> (error + unit) \<times> state" where
  "replace t args s =
     (case check_read_only t of Some e \<Rightarrow> (Inl e, s) | None \<Rightarrow> add_impl True args s)"

text \<open>
  \<^verbatim>\<open>Transaction.set_serial(increment, value, name, rdclass)\<close>; \<open>value = None\<close> is
  Python's \<^verbatim>\<open>None\<close>.
\<close>

definition set_serial ::
  "txn \<Rightarrow> int \<Rightarrow> int option \<Rightarrow> string + name \<Rightarrow> int \<Rightarrow> state \<Rightarrow> (error + unit) \<times> state" where
  "set_serial t increment v name_arg c s =
     (let n = as_name name_arg;
          (found, s1) = get_rdataset s n c rdatatype_SOA rdatatype_NONE
      in case found of
           None \<Rightarrow> (Inl KeyError, s1)
         | Some a \<Rightarrow>
             (case items (heap s1 ! a) of
                [] \<Rightarrow> (Inl KeyError, s1)
              | rd0 # _ \<Rightarrow>
                  (let serial0 = (case v of Some x \<Rightarrow> x | None \<Rightarrow> rd_serial rd0);
                       serial1 = serial0 + increment;
                       serial2 = (if serial1 > 0xffffffff \<or> serial1 < 1 then 1 else serial1);
                       rd = rd0\<lparr>rd_serial := serial2\<rparr>;
                       (new_rdataset, h2) = from_rdata (heap s1) (ttl (heap s1 ! a)) rd
                   in replace t [AName n, AObj new_rdataset] (s1\<lparr>heap := h2\<rparr>))))"

text \<open>
  What the arguments of \<^verbatim>\<open>delete\<close> and \<^verbatim>\<open>delete_exact\<close> stand for: a selector
  (class, type, covers) under a name, or a name with a record-set, where \<open>None\<close> is
  the \<^verbatim>\<open>None\<close> that \<^verbatim>\<open>_rdataset_from_args\<close> returns when nothing follows the name.
\<close>

datatype delete_target = BySelector name int int int | ByRdataset name "addr option"

text \<open>
  The first half of \<^verbatim>\<open>Transaction._delete\<close>: reading the arguments. An RRset is taken
  as the record-set itself (\<^verbatim>\<open>rdataset = arg  # rrsets are also rdatasets\<close>).
\<close>

definition delete_args :: "string \<Rightarrow> arg list \<Rightarrow> heap \<Rightarrow> (error + delete_target) \<times> heap" where
  "delete_args method args h =
     (case args of
        [] \<Rightarrow> (Inl (TypeError (''not enough parameters to '' @ method)), h)
      | a0 # rest \<Rightarrow>
          (let a = (case a0 of AText text \<Rightarrow> AName (from_text text) | _ \<Rightarrow> a0)
           in case a of
                AName n \<Rightarrow>
                  (case rest of
                     AInt c0 # rest1 \<Rightarrow>
                       (case make_code c0 of
                          Inl e \<Rightarrow> (Inl e, h)
                        | Inr c \<Rightarrow>
                            (case rest1 of
                               [] \<Rightarrow> (Inl (TypeError (''not enough parameters to '' @ method)), h)
                             | t0 # rest2 \<Rightarrow>
                                 (case make_arg t0 of
                                    Inl e \<Rightarrow> (Inl e, h)
                                  | Inr ty \<Rightarrow>
                                      (case (case rest2 of
                                               [] \<Rightarrow> Inr (rdatatype_NONE, [])
                                             | cv0 # rest3 \<Rightarrow>
                                                 (case make_arg cv0 of
                                                    Inl e \<Rightarrow> Inl e
                                                  | Inr cv \<Rightarrow> Inr (cv, rest3))) of
                                         Inl e \<Rightarrow> (Inl e, h)
                                       | Inr (cv, rest3) \<Rightarrow>
                                           (case raise_if_not_empty method rest3 of
                                              Some e \<Rightarrow> (Inl e, h)
                                            | None \<Rightarrow> (Inr (BySelector n c ty cv), h))))))
                   | _ \<Rightarrow>
                       (case rdataset_from_args method True rest h of
                          (Inl e, _, h1) \<Rightarrow> (Inl e, h1)
                        | (Inr r, rest', h1) \<Rightarrow>
                            (case raise_if_not_empty method rest' of
                               Some e \<Rightarrow> (Inl e, h1)
                             | None \<Rightarrow> (Inr (ByRdataset n r), h1))))
              | AObj rrset \<Rightarrow>
                  if is_RRset h rrset then
                    (case owner (h ! rrset) of
                       None \<Rightarrow> (Inl (AttributeError ''name''), h)
                     | Some n \<Rightarrow>
                         (case raise_if_not_empty method rest of
                            Some e \<Rightarrow> (Inl e, h)
                          | None \<Rightarrow> (Inr (ByRdataset n (Some rrset)), h)))
                  else (Inl (TypeError (method @ '' requires a name or RRset as the first argument'')), h)
              | _ \<Rightarrow> (Inl (TypeError (method @ '' requires a name or RRset as the first argument'')), h)))"

text \<open>
  The truth value of \<^verbatim>\<open>rdataset\<close> in \<^verbatim>\<open>if rdataset:\<close>. \<^verbatim>\<open>None\<close> is false. A
  record-set object defines \<^verbatim>\<open>__len__\<close> (the transaction itself calls \<^verbatim>\<open>len\<close> on it)
  and, being a set of the record-set algebra, no \<^verbatim>\<open>__bool__\<close>, so by Python's rule for
  truth values it is false exactly when it has no members.
\<close>

definition truthy :: "heap \<Rightarrow> addr option \<Rightarrow> bool" where
  "truthy h r = (case r of None \<Rightarrow> False | Some a \<Rightarrow> length (items (h ! a)) \<noteq> 0)"

text \<open>The branch of \<^verbatim>\<open>_delete\<close> that removes the difference from the existing record-set.\<close>

definition delete_difference :: "name \<Rightarrow> addr \<Rightarrow> addr \<Rightarrow> state \<Rightarrow> state" where
  "delete_difference n existing r s =
     (let (d, h1) = Rdataset_difference (heap s) existing r
      in if length (items (h1 ! d)) = 0
         then delete_rdataset (s\<lparr>heap := h1\<rparr>) n (rdclass (h1 ! d)) (rdtype (h1 ! d)) (covers (h1 ! d))
         else put_rdataset (s\<lparr>heap := h1\<rparr>) n d)"

text \<open>The second half of \<^verbatim>\<open>Transaction._delete\<close>.\<close>

definition delete_store :: "string \<Rightarrow> bool \<Rightarrow> delete_target \<Rightarrow> state \<Rightarrow> (error + unit) \<times> state" where
  "delete_store method exact target s =
     (case target of
        BySelector n c ty cv \<Rightarrow>
          (let (existing, s1) = get_rdataset s n c ty cv
           in case existing of
                None \<Rightarrow> if exact then (Inl (DeleteNotExact (method @ '': missing rdataset'')), s1)
                        else (Inr (), s1)
              | Some _ \<Rightarrow> (Inr (), delete_rdataset s1 n c ty cv))
      | ByRdataset n ro \<Rightarrow>
          if truthy (heap s) ro then
            (case ro of
               None \<Rightarrow> (Inr (), s)
             | Some r \<Rightarrow>
                 (let (existing, s1) = get_rdataset s n (rdclass (heap s ! r)) (rdtype (heap s ! r))
                                         (covers (heap s ! r))
                  in case existing of
                       Some e \<Rightarrow>
                         if exact then
                           (let (i, h2) = Rdataset_intersection (heap s1) e r
                            in if \<not> rds_eq (h2 ! i) (h2 ! r)
                               then (Inl (DeleteNotExact (method @ '': missing rdatas'')), s1\<lparr>heap := h2\<rparr>)
                               else (Inr (), delete_difference n e r (s1\<lparr>heap := h2\<rparr>)))
                         else (Inr (), delete_difference n e r s1)
                     | None \<Rightarrow>
                         if exact then (Inl (DeleteNotExact (method @ '': missing rdataset'')), s1)
                         else (Inr (), s1)))
          else if exact then
            (let (known, s1) = name_exists_b s n
             in if \<not> known then (Inl (DeleteNotExact (method @ '': name not known'')), s1)
                else (Inr (), delete_name s1 n))
          else (Inr (), delete_name s n))"

text \<open>\<^verbatim>\<open>Transaction._delete\<close>\<close>

definition delete_impl :: "bool \<Rightarrow> arg list \<Rightarrow> state \<Rightarrow> (error + unit) \<times> state" where
  "delete_impl exact args s =
     (let method = (if exact then ''delete_exact()'' else ''delete()'')
      in case delete_args method args (heap s) of
           (Inl e, h1) \<Rightarrow> (Inl e, s\<lparr>heap := h1\<rparr>)
         | (Inr target, h1) \<Rightarrow> delete_store method exact target (s\<lparr>heap := h1\<rparr>))"

text \<open>\<^verbatim>\<open>Transaction.delete\<close> and \<^verbatim>\<open>Transaction.delete_exact\<close>\<close>

definition delete :: "txn \<Rightarrow> arg list \<Rightarrow> state \<Rightarrow> (error + unit) \<times> state" where
  "delete t args s =
     (case check_read_only t of Some e \<Rightarrow> (Inl e, s) | None \<Rightarrow> delete_impl False args s)"

definition delete_exact :: "txn \<Rightarrow> arg list \<Rightarrow> state \<Rightarrow> (error + unit) \<times> state" where
  "delete_exact t args s =
     (case check_read_only t of Some e \<Rightarrow> (Inl e, s) | None \<Rightarrow> delete_impl True args s)"

text \<open>\<^verbatim>\<open>Transaction.name_exists\<close>\<close>

definition name_exists :: "txn \<Rightarrow> string + name \<Rightarrow> state \<Rightarrow> bool \<times> state" where
  "name_exists t name_arg s = name_exists_b s (as_name name_arg)"

text \<open>
  \<^verbatim>\<open>Transaction.__enter__\<close> and \<^verbatim>\<open>Transaction.__exit__\<close>. \<open>exc_type\<close> is \<open>None\<close> when the
  block ended without an exception. The result \<open>False\<close> tells Python not to suppress
  the exception.
\<close>

definition enter :: "txn \<Rightarrow> state \<Rightarrow> txn \<times> state" where
  "enter t s = (t, s)"

definition exit_txn :: "txn \<Rightarrow> error option \<Rightarrow> state \<Rightarrow> bool \<times> state" where
  "exit_txn t exc_type s =
     (if exc_type = None then (False, end_transaction s True)
      else (False, end_transaction s False))"

text \<open>
  The protocol of Python's \<^verbatim>\<open>with txn as t: body\<close>: \<^verbatim>\<open>__enter__\<close>, the body, then
  \<^verbatim>\<open>__exit__\<close> with the exception of the body if it raised one; the exception is raised
  again unless \<^verbatim>\<open>__exit__\<close> returned a true value.
\<close>

definition with_block ::
  "txn \<Rightarrow> (txn \<Rightarrow> state \<Rightarrow> (error + 'a) \<times> state) \<Rightarrow> state \<Rightarrow> (error + 'a option) \<times> state" where
  "with_block t body s =
     (let (t1, s0) = enter t s;
          (r, s1) = body t1 s0
      in case r of
           Inr v \<Rightarrow> (let (_, s2) = exit_txn t None s1 in (Inr (Some v), s2))
         | Inl e \<Rightarrow>
             (let (suppress, s2) = exit_txn t (Some e) s1
              in if suppress then (Inr None, s2) else (Inl e, s2)))"

subsection \<open>Well-formed states and example values\<close>

text \<open>Every reference held by the zone, and every reference passed as an argument,
  points into the heap.\<close>

definition heap_ok :: "state \<Rightarrow> bool" where
  "heap_ok s = list_all (\<lambda>e. snd e < length (heap s)) (zone s)"

definition args_ok :: "heap \<Rightarrow> arg list \<Rightarrow> bool" where
  "args_ok h args = list_all (\<lambda>a. case a of AObj r \<Rightarrow> r < length h | _ \<Rightarrow> True) args"

text \<open>The zone as its contents: each entry with the object it refers to.\<close>

definition zone_view :: "state \<Rightarrow> (name \<times> rdataset) list" where
  "zone_view s = map (\<lambda>e. (fst e, heap s ! snd e)) (zone s)"

definition writer :: txn where
  "writer = \<lparr>replacement = False, read_only = False\<rparr>"

definition reader :: txn where
  "reader = \<lparr>replacement = False, read_only = True\<rparr>"

definition soa_rd :: "int \<Rightarrow> rdata" where
  "soa_rd n = \<lparr>rd_rdclass = 1, rd_rdtype = 6, rd_covers = 0, rd_text = ''ns hostmaster'', rd_serial = n\<rparr>"

definition a_rd :: "string \<Rightarrow> rdata" where
  "a_rd txt = \<lparr>rd_rdclass = 1, rd_rdtype = 1, rd_covers = 0, rd_text = txt, rd_serial = 0\<rparr>"

definition mx_rd :: "string \<Rightarrow> rdata" where
  "mx_rd txt = \<lparr>rd_rdclass = 1, rd_rdtype = 15, rd_covers = 0, rd_text = txt, rd_serial = 0\<rparr>"

definition mk_rdataset :: "pyclass \<Rightarrow> name option \<Rightarrow> int \<Rightarrow> int \<Rightarrow> rdata list \<Rightarrow> rdataset" where
  "mk_rdataset k nm ty tt rds =
     \<lparr>cls = k, owner = nm, rdclass = 1, rdtype = ty, covers = 0, ttl = tt, items = rds,
      immutable_init = None\<rparr>"

text \<open>A zone whose apex holds one SOA record with the given serial.\<close>

definition soa_zone :: "int \<Rightarrow> state" where
  "soa_zone n =
     \<lparr>heap = [mk_rdataset Rdataset_cls None 6 3600 [soa_rd n]],
      zone = [(dns_name_empty, 0)], calls = []\<rparr>"

definition empty_zone :: state where
  "empty_zone = \<lparr>heap = [], zone = [], calls = []\<rparr>"

definition www :: name where
  "www = Name ''www''"

text \<open>A zone with one address record-set at \<open>www\<close>, stored as a plain record-set.\<close>

definition www_zone :: state where
  "www_zone =
     \<lparr>heap = [mk_rdataset Rdataset_cls None 1 300 [a_rd ''10.0.0.1'']],
      zone = [(www, 0)], calls = []\<rparr>"

text \<open>The same zone with the record-set stored as an immutable object.\<close>

definition imm_zone :: state where
  "imm_zone =
     \<lparr>heap = [mk_rdataset ImmutableRdataset_cls None 1 300 [a_rd ''10.0.0.1'']],
      zone = [(www, 0)], calls = []\<rparr>"

text \<open>A heap holding one RRset for \<open>www\<close> with two address records.\<close>

definition rrset_heap :: heap where
  "rrset_heap = [mk_rdataset RRset_cls (Some www) 1 300 [a_rd ''10.0.0.1'', a_rd ''10.0.0.2'']]"

text \<open>The calls an operation added to the record, and the writes among them that
  carry at least one member.\<close>

fun nonempty_put :: "call \<Rightarrow> bool" where
  "nonempty_put (PutRdataset n a k) = (0 < k)"
| "nonempty_put c = True"

definition new_calls :: "state \<Rightarrow> state \<Rightarrow> call list" where
  "new_calls s s' = drop (length (calls s)) (calls s')"

text \<open>An empty zone, with an empty plain record-set in the heap to pass as an argument.\<close>

definition empty_arg_state :: state where
  "empty_arg_state = \<lparr>heap = [mk_rdataset Rdataset_cls None 1 300 []], zone = [], calls = []\<rparr>"

text \<open>The zone of \<open>www_zone\<close>, with a second object (address 1) holding the same record,
  to pass as an argument.\<close>

definition del_state :: state where
  "del_state =
     \<lparr>heap = [mk_rdataset Rdataset_cls None 1 300 [a_rd ''10.0.0.1''],
              mk_rdataset Rdataset_cls None 1 0 [a_rd ''10.0.0.1'']],
      zone = [(www, 0)], calls = []\<rparr>"

text \<open>A zone with an immutable address record-set (address 0) and a mail record-set
  (address 1) at \<open>www\<close>, and a second address record-set (address 2) to pass as an
  argument.\<close>

definition ab_state :: state where
  "ab_state =
     \<lparr>heap = [mk_rdataset ImmutableRdataset_cls None 1 300 [a_rd ''10.0.0.1''],
              mk_rdataset Rdataset_cls None 15 300 [mx_rd ''mail''],
              mk_rdataset Rdataset_cls None 1 60 [a_rd ''10.0.0.2'']],
      zone = [(www, 0), (www, 1)], calls = []\<rparr>"

text \<open>A zone with an address record-set (address 0) and a mail record-set (address 1) at
  \<open>www\<close>, and an empty address record-set (address 2) to pass as an argument.\<close>

definition empty_del_state :: state where
  "empty_del_state =
     \<lparr>heap = [mk_rdataset Rdataset_cls None 1 300 [a_rd ''10.0.0.1''],
              mk_rdataset Rdataset_cls None 15 300 [mx_rd ''mail''],
              mk_rdataset Rdataset_cls None 1 0 []],
      zone = [(www, 0), (www, 1)], calls = []\<rparr>"

text \<open>A zone with two address records (address 0) and a mail record-set (address 1) at
  \<open>www\<close>, and a record-set holding the second address record (address 2) to pass as an
  argument.\<close>

definition exact_state :: state where
  "exact_state =
     \<lparr>heap = [mk_rdataset Rdataset_cls None 1 300 [a_rd ''10.0.0.1'', a_rd ''10.0.0.2''],
              mk_rdataset Rdataset_cls None 15 300 [mx_rd ''mail''],
              mk_rdataset Rdataset_cls None 1 0 [a_rd ''10.0.0.2'']],
      zone = [(www, 0), (www, 1)], calls = []\<rparr>"

section \<open>Properties\<close>

subsection \<open>Reading the arguments\<close>

lemma add_args_name_obj:
  "add_args method [AName n, AObj r] h = (Inr (n, r), h)"
  by (simp add: add_args_def rdataset_from_args_def raise_if_not_empty_def)

lemma replace_name_obj:
  "\<not> read_only t \<Longrightarrow> replace t [AName n, AObj r] s = (Inr (), put_rdataset s n r)"
  by (simp add: replace_def check_read_only_def add_impl_def add_args_name_obj add_store_def)

lemma rdataset_from_args_deleting:
  "rdataset_from_args m True rest h = (Inr r, rest', h1) \<Longrightarrow>
   rdataset_from_args m' True rest h = (Inr r, rest', h1)"
  by (auto simp: rdataset_from_args_def from_rdata_def alloc_def
      split: list.splits arg.splits if_splits)

lemma rdataset_from_args_heap:
  "rdataset_from_args m d rest h = (r, rest', h1) \<Longrightarrow> take (length h) h1 = h"
  by (auto simp: rdataset_from_args_def from_rdata_def alloc_def
      split: list.splits arg.splits if_splits)

lemma rdataset_from_args_ok:
  "rdataset_from_args m d rest h = (Inr (Some r), rest', h1) \<Longrightarrow> args_ok h rest \<Longrightarrow>
   r < length h1"
  by (auto simp: rdataset_from_args_def from_rdata_def alloc_def args_ok_def
      split: list.splits arg.splits if_splits)


lemma delete_args_method:
  "delete_args m args h = (Inr tg, h1) \<Longrightarrow> delete_args m' args h = (Inr tg, h1)"
  by (auto simp: delete_args_def raise_if_not_empty_def Let_def
      dest: rdataset_from_args_deleting [of m _ h _ _ _ m']
      split: list.splits arg.splits if_splits sum.splits option.splits prod.splits)

lemma delete_args_heap:
  "delete_args m args h = (r, h1) \<Longrightarrow> take (length h) h1 = h"
  by (auto simp: delete_args_def raise_if_not_empty_def Let_def
      dest: rdataset_from_args_heap
      split: list.splits arg.splits if_splits sum.splits option.splits prod.splits)

lemma delete_args_ok:
  "delete_args m args h = (Inr (ByRdataset n (Some r)), h1) \<Longrightarrow> args_ok h args \<Longrightarrow> r < length h1"
  by (auto simp: delete_args_def raise_if_not_empty_def Let_def args_ok_def
      dest: rdataset_from_args_ok [unfolded args_ok_def]
      split: list.splits arg.splits if_splits sum.splits option.splits prod.splits)

subsection \<open>The serial\<close>

text \<open>
  C1 (amended). In a writable transaction whose zone holds a non-empty SOA record-set
  at the name, \<open>set_serial\<close> succeeds and writes one new record-set whose only member
  is the first SOA record with its serial replaced. The new serial is the base plus
  the increment, where the base is \<open>value\<close> when a value is given and the current
  serial otherwise; a result above 0xFFFFFFFF or below 1 becomes 1. The increment is
  applied to an explicit value as well.
\<close>

theorem set_serial_writes:
  assumes "\<not> read_only t"
    and "lookup s (as_name na) c rdatatype_SOA rdatatype_NONE = Some a"
    and "items (heap s ! a) = rd0 # rest"
  shows "fst (set_serial t increment v na c s) = Inr () \<and>
     heap (snd (set_serial t increment v na c s)) =
        heap s @ [\<lparr>cls = Rdataset_cls, owner = None, rdclass = rd_rdclass rd0,
               rdtype = rd_rdtype rd0, covers = rd_covers rd0, ttl = ttl (heap s ! a),
               items = [rd0\<lparr>rd_serial :=
                   (if (case v of Some x \<Rightarrow> x | None \<Rightarrow> rd_serial rd0) + increment > 0xffffffff
                       \<or> (case v of Some x \<Rightarrow> x | None \<Rightarrow> rd_serial rd0) + increment < 1
                    then 1 else (case v of Some x \<Rightarrow> x | None \<Rightarrow> rd_serial rd0) + increment)\<rparr>],
               immutable_init = None\<rparr>] \<and>
     calls (snd (set_serial t increment v na c s)) =
        calls s @ [GetRdataset (as_name na) c rdatatype_SOA rdatatype_NONE,
                   PutRdataset (as_name na) (length (heap s)) 1] \<and>
     hd (zone (snd (set_serial t increment v na c s))) = (as_name na, length (heap s))"
  using assms
  by (simp add: set_serial_def get_rdataset_def from_rdata_def alloc_def replace_name_obj Let_def
      put_rdataset_def)

text \<open>The theorem at serial 0xFFFFFFFF with increment 1 (the serial wraps to 1), and
  at serial 10 with the explicit value 5 and increment 0 (the serial becomes 5).\<close>

theorem set_serial_writes_witness:
  "map rd_serial (items (last (heap (snd
       (set_serial writer 1 None (Inr dns_name_empty) rdataclass_IN (soa_zone 0xffffffff)))))) = [1] \<and>
   map rd_serial (items (last (heap (snd
       (set_serial writer 0 (Some 5) (Inr dns_name_empty) rdataclass_IN (soa_zone 10)))))) = [5]"
proof -
  have w: "\<not> read_only writer"
    by (simp add: writer_def)
  have l: "lookup (soa_zone k) (as_name (Inr dns_name_empty)) rdataclass_IN rdatatype_SOA rdatatype_NONE
             = Some 0" for k
    by (simp add: lookup_def soa_zone_def matches_def selector_def as_name_def mk_rdataset_def
        rdataclass_IN_def rdatatype_SOA_def rdatatype_NONE_def)
  have i: "items (heap (soa_zone k) ! 0) = soa_rd k # []" for k
    by (simp add: soa_zone_def mk_rdataset_def)
  show ?thesis
    using set_serial_writes [OF w l [of "0xffffffff"] i [of "0xffffffff"], where increment = 1 and v = None]
          set_serial_writes [OF w l [of 10] i [of 10], where increment = 0 and v = "Some 5"]
    by (simp add: soa_rd_def)
qed

text \<open>
  C1 as stated fails: with the explicit value 5 and the default increment 1 on a zone
  whose serial is 10, the serial written is 6, not 5.
\<close>

theorem set_serial_value_counterexample:
  "map rd_serial (items (last (heap (snd
       (set_serial writer 1 (Some 5) (Inr dns_name_empty) rdataclass_IN (soa_zone 10)))))) = [6]"
  by (simp add: set_serial_def get_rdataset_def lookup_def matches_def selector_def soa_zone_def
      mk_rdataset_def as_name_def rdataclass_IN_def rdatatype_SOA_def rdatatype_NONE_def
      from_rdata_def alloc_def replace_name_obj writer_def put_rdataset_def soa_rd_def Let_def)

subsection \<open>The backend and the algebra: basic facts\<close>

lemma put_rdataset_simps:
  "heap (put_rdataset s n a) = heap s"
  "calls (put_rdataset s n a) = calls s @ [PutRdataset n a (length (items (heap s ! a)))]"
  "zone (put_rdataset s n a) =
     (n, a) # filter (\<lambda>e. \<not> matches (heap s) n (rdclass (heap s ! a)) (rdtype (heap s ! a))
                                (covers (heap s ! a)) e) (zone s)"
  by (simp_all add: put_rdataset_def)

lemma delete_rdataset_simps:
  "heap (delete_rdataset s n c ty cv) = heap s"
  "calls (delete_rdataset s n c ty cv) = calls s @ [DeleteRdataset n c ty cv]"
  "zone (delete_rdataset s n c ty cv) = filter (\<lambda>e. \<not> matches (heap s) n c ty cv e) (zone s)"
  by (simp_all add: delete_rdataset_def)

lemma delete_name_simps:
  "heap (delete_name s n) = heap s"
  "calls (delete_name s n) = calls s @ [DeleteName n]"
  "zone (delete_name s n) = filter (\<lambda>e. fst e \<noteq> n) (zone s)"
  by (simp_all add: delete_name_def)

lemma get_rdataset_simps:
  "fst (get_rdataset s n c ty cv) = lookup s n c ty cv"
  "heap (snd (get_rdataset s n c ty cv)) = heap s"
  "zone (snd (get_rdataset s n c ty cv)) = zone s"
  "calls (snd (get_rdataset s n c ty cv)) = calls s @ [GetRdataset n c ty cv]"
  by (simp_all add: get_rdataset_def)

lemma make_code_ok: "0 \<le> c \<Longrightarrow> c \<le> 65535 \<Longrightarrow> make_code c = Inr c"
  by (simp add: make_code_def)

text \<open>Constructing an immutable record-set: a new object with the contents of the
  source, and without the mark that would allow attribute assignment.\<close>

lemma ImmutableRdataset_new_eq:
  assumes "src < length h"
  shows "ImmutableRdataset_new h src =
     (Inr (length h),
      h @ [\<lparr>cls = ImmutableRdataset_cls, owner = None, rdclass = rdclass (h ! src),
             rdtype = rdtype (h ! src), covers = covers (h ! src), ttl = ttl (h ! src),
             items = items (h ! src), immutable_init = None\<rparr>])"
  using assms
  by (simp add: ImmutableRdataset_new_def alloc_def immutable_init_nf_def ImmutableRdataset_init_def
      Immutable_setattr_def blank_def truthy_ref_def nth_append Let_def)

lemma set_of_set_add: "set (set_add xs x) = insert x (set xs)"
  by (auto simp: set_add_def)

lemma set_of_set_union_update: "set (set_union_update xs ys) = set xs \<union> set ys"
  unfolding set_union_update_def
  by (induction ys arbitrary: xs) (auto simp: set_of_set_add)

lemma fold_set_add_distinct:
  "distinct ys \<Longrightarrow> set xs \<inter> set ys = {} \<Longrightarrow> fold (\<lambda>y acc. set_add acc y) ys xs = xs @ ys"
  by (induction ys arbitrary: xs) (auto simp: set_add_def)

lemma set_union_update_Nil: "distinct ys \<Longrightarrow> set_union_update [] ys = ys"
  by (simp add: set_union_update_def fold_set_add_distinct)

lemma set_union_update_empty_iff: "set_union_update xs ys = [] \<longleftrightarrow> xs = [] \<and> ys = []"
  using set_of_set_union_update [of xs ys]
  by (metis Un_empty set_empty)

subsection \<open>The read-only guard\<close>

lemma read_only_refuses:
  assumes "read_only t"
  shows "add t args s = (Inl ReadOnly, s)"
    and "replace t args s = (Inl ReadOnly, s)"
    and "delete t args s = (Inl ReadOnly, s)"
    and "delete_exact t args s = (Inl ReadOnly, s)"
  using assms
  by (simp_all add: add_def replace_def delete_def delete_exact_def check_read_only_def)

text \<open>
  C2. \<open>add\<close>, \<open>replace\<close>, \<open>delete\<close> and \<open>delete_exact\<close> refuse a read-only transaction
  before anything else happens (\<open>read_only_refuses\<close>). \<open>set_serial\<close> does not check
  the flag itself: in a read-only transaction it first asks the backend for the SOA
  record-set, fails with \<open>KeyError\<close> when there is none, and reaches \<open>ReadOnly\<close> only
  through its call of \<open>replace\<close>.
\<close>

theorem set_serial_read_only_lookup:
  "set_serial reader 1 None (Inr dns_name_empty) rdataclass_IN empty_zone =
     (Inl KeyError, \<lparr>heap = [], zone = [],
        calls = [GetRdataset dns_name_empty rdataclass_IN rdatatype_SOA rdatatype_NONE]\<rparr>) \<and>
   fst (set_serial reader 1 None (Inr dns_name_empty) rdataclass_IN (soa_zone 10)) = Inl ReadOnly \<and>
   calls (snd (set_serial reader 1 None (Inr dns_name_empty) rdataclass_IN (soa_zone 10))) =
     [GetRdataset dns_name_empty rdataclass_IN rdatatype_SOA rdatatype_NONE]"
  by (simp add: set_serial_def get_rdataset_def lookup_def matches_def selector_def soa_zone_def
      mk_rdataset_def as_name_def rdataclass_IN_def rdatatype_SOA_def rdatatype_NONE_def
      from_rdata_def alloc_def read_only_refuses reader_def empty_zone_def soa_rd_def Let_def)

subsection \<open>The scoped block\<close>

text \<open>
  C7 (amended). A scoped block ends the transaction exactly once on its way out:
  after the calls the body made, the block adds the single call
  \<open>EndTransaction True\<close> when the body returned, and the single call
  \<open>EndTransaction False\<close> when the body raised, and then the exception of the body is
  the exception of the block.
\<close>

theorem with_block_ends_once:
  "(case body t s of
      (Inr v, s1) \<Rightarrow>
         with_block t body s = (Inr (Some v), s1\<lparr>calls := calls s1 @ [EndTransaction True]\<rparr>)
    | (Inl e, s1) \<Rightarrow>
         with_block t body s = (Inl e, s1\<lparr>calls := calls s1 @ [EndTransaction False]\<rparr>))"
  by (simp add: with_block_def enter_def exit_txn_def end_transaction_def split: prod.splits sum.splits)

text \<open>
  C7 as stated fails in its last part: nothing in the transaction remembers that it
  has ended, so a second scoped block on the same transaction ends it a second time.
\<close>

theorem with_block_twice_counterexample:
  "calls (snd (with_block writer (\<lambda>t s. (Inr (), s))
            (snd (with_block writer (\<lambda>t s. (Inr (), s)) empty_zone)))) =
     [EndTransaction True, EndTransaction True]"
  by (simp add: with_block_def enter_def exit_txn_def end_transaction_def empty_zone_def)

subsection \<open>Reading a record-set\<close>

lemma get_not_found:
  assumes "0 \<le> c" "c \<le> 65535" "0 \<le> ty" "ty \<le> 65535"
    and "lookup s (as_name na) c ty cv = None"
  shows "get t na c ty cv s = (Inr None, s\<lparr>calls := calls s @ [GetRdataset (as_name na) c ty cv]\<rparr>)"
  using assms by (simp add: get_def make_code_ok get_rdataset_def)

lemma get_found_immutable:
  assumes "0 \<le> c" "c \<le> 65535" "0 \<le> ty" "ty \<le> 65535"
    and "lookup s (as_name na) c ty cv = Some a"
    and "is_ImmutableRdataset (heap s) a"
  shows "get t na c ty cv s = (Inr (Some a), s\<lparr>calls := calls s @ [GetRdataset (as_name na) c ty cv]\<rparr>)"
  using assms by (simp add: get_def make_code_ok get_rdataset_def)

lemma get_found_mutable:
  assumes "0 \<le> c" "c \<le> 65535" "0 \<le> ty" "ty \<le> 65535"
    and "lookup s (as_name na) c ty cv = Some a"
    and "\<not> is_ImmutableRdataset (heap s) a"
    and "a < length (heap s)"
  shows "get t na c ty cv s =
     (Inr (Some (length (heap s))),
      s\<lparr>calls := calls s @ [GetRdataset (as_name na) c ty cv],
        heap := heap s @ [\<lparr>cls = ImmutableRdataset_cls, owner = None, rdclass = rdclass (heap s ! a),
             rdtype = rdtype (heap s ! a), covers = covers (heap s ! a), ttl = ttl (heap s ! a),
             items = items (heap s ! a), immutable_init = None\<rparr>]\<rparr>)"
  using assms by (simp add: get_def make_code_ok get_rdataset_def ImmutableRdataset_new_eq)

lemma sealed_setattr:
  "immutable_init (h ! r) = None \<Longrightarrow>
   Immutable_setattr h r op = (Inl (TypeError ''object doesn't support attribute assignment''), h)"
  by (simp add: Immutable_setattr_def)

lemma sealed_delattr:
  "immutable_init (h ! r) = None \<Longrightarrow>
   Immutable_delattr h r op = (Inl (TypeError ''object doesn't support attribute assignment''), h)"
  by (simp add: Immutable_delattr_def)

text \<open>
  C8 (amended). A lookup that finds nothing makes \<open>get\<close> return \<open>None\<close>, not an
  error. A lookup that finds a record-set that is not immutable makes \<open>get\<close> return a
  new immutable object with the same contents, at a fresh address, leaving the zone
  and the stored object alone. A lookup that finds an immutable record-set (one whose
  construction is finished, so that it no longer carries \<^verbatim>\<open>_immutable_init\<close>) makes
  \<open>get\<close> return that stored object itself, without a copy. In both cases every
  attribute assignment and every attribute deletion on the returned object is refused
  with \<open>TypeError\<close> and leaves the heap as it is.
\<close>

theorem get_returns_immutable:
  assumes "0 \<le> c" "c \<le> 65535" "0 \<le> ty" "ty \<le> 65535"
  shows "(lookup s (as_name na) c ty cv = None \<longrightarrow>
            get t na c ty cv s =
              (Inr None, s\<lparr>calls := calls s @ [GetRdataset (as_name na) c ty cv]\<rparr>))
       \<and> (\<forall>a. lookup s (as_name na) c ty cv = Some a \<and> a < length (heap s)
                \<and> \<not> is_ImmutableRdataset (heap s) a \<longrightarrow>
             fst (get t na c ty cv s) = Inr (Some (length (heap s))) \<and>
             zone (snd (get t na c ty cv s)) = zone s \<and>
             heap (snd (get t na c ty cv s)) =
               heap s @ [\<lparr>cls = ImmutableRdataset_cls, owner = None, rdclass = rdclass (heap s ! a),
                  rdtype = rdtype (heap s ! a), covers = covers (heap s ! a), ttl = ttl (heap s ! a),
                  items = items (heap s ! a), immutable_init = None\<rparr>] \<and>
             (\<forall>op. Immutable_setattr (heap (snd (get t na c ty cv s))) (length (heap s)) op =
                     (Inl (TypeError ''object doesn't support attribute assignment''),
                      heap (snd (get t na c ty cv s)))) \<and>
             (\<forall>op. Immutable_delattr (heap (snd (get t na c ty cv s))) (length (heap s)) op =
                     (Inl (TypeError ''object doesn't support attribute assignment''),
                      heap (snd (get t na c ty cv s)))))
       \<and> (\<forall>a. lookup s (as_name na) c ty cv = Some a \<and> is_ImmutableRdataset (heap s) a
                \<and> immutable_init (heap s ! a) = None \<longrightarrow>
             fst (get t na c ty cv s) = Inr (Some a) \<and>
             zone (snd (get t na c ty cv s)) = zone s \<and>
             heap (snd (get t na c ty cv s)) = heap s \<and>
             (\<forall>op. Immutable_setattr (heap s) a op =
                     (Inl (TypeError ''object doesn't support attribute assignment''), heap s)) \<and>
             (\<forall>op. Immutable_delattr (heap s) a op =
                     (Inl (TypeError ''object doesn't support attribute assignment''), heap s)))"
proof (intro conjI allI impI)
  assume "lookup s (as_name na) c ty cv = None"
  then show "get t na c ty cv s =
      (Inr None, s\<lparr>calls := calls s @ [GetRdataset (as_name na) c ty cv]\<rparr>)"
    using assms by (rule get_not_found [rotated 4])
next
  fix a
  assume a: "lookup s (as_name na) c ty cv = Some a \<and> a < length (heap s)
               \<and> \<not> is_ImmutableRdataset (heap s) a"
  then have g: "get t na c ty cv s =
     (Inr (Some (length (heap s))),
      s\<lparr>calls := calls s @ [GetRdataset (as_name na) c ty cv],
        heap := heap s @ [\<lparr>cls = ImmutableRdataset_cls, owner = None, rdclass = rdclass (heap s ! a),
             rdtype = rdtype (heap s ! a), covers = covers (heap s ! a), ttl = ttl (heap s ! a),
             items = items (heap s ! a), immutable_init = None\<rparr>]\<rparr>)"
    using assms get_found_mutable by blast
  show "fst (get t na c ty cv s) = Inr (Some (length (heap s)))"
    by (simp add: g)
  show "zone (snd (get t na c ty cv s)) = zone s"
    by (simp add: g)
  show "heap (snd (get t na c ty cv s)) =
               heap s @ [\<lparr>cls = ImmutableRdataset_cls, owner = None, rdclass = rdclass (heap s ! a),
                  rdtype = rdtype (heap s ! a), covers = covers (heap s ! a), ttl = ttl (heap s ! a),
                  items = items (heap s ! a), immutable_init = None\<rparr>]"
    by (simp add: g)
  show "Immutable_setattr (heap (snd (get t na c ty cv s))) (length (heap s)) op =
                     (Inl (TypeError ''object doesn't support attribute assignment''),
                      heap (snd (get t na c ty cv s)))" for op
    by (rule sealed_setattr) (simp add: g)
  show "Immutable_delattr (heap (snd (get t na c ty cv s))) (length (heap s)) op =
                     (Inl (TypeError ''object doesn't support attribute assignment''),
                      heap (snd (get t na c ty cv s)))" for op
    by (rule sealed_delattr) (simp add: g)
next
  fix a
  assume a: "lookup s (as_name na) c ty cv = Some a \<and> is_ImmutableRdataset (heap s) a
                \<and> immutable_init (heap s ! a) = None"
  then have g: "get t na c ty cv s =
      (Inr (Some a), s\<lparr>calls := calls s @ [GetRdataset (as_name na) c ty cv]\<rparr>)"
    using assms get_found_immutable by blast
  show "fst (get t na c ty cv s) = Inr (Some a)"
    by (simp add: g)
  show "zone (snd (get t na c ty cv s)) = zone s"
    by (simp add: g)
  show "heap (snd (get t na c ty cv s)) = heap s"
    by (simp add: g)
  show "Immutable_setattr (heap s) a op =
                     (Inl (TypeError ''object doesn't support attribute assignment''), heap s)" for op
    using a by (simp add: sealed_setattr)
  show "Immutable_delattr (heap s) a op =
                     (Inl (TypeError ''object doesn't support attribute assignment''), heap s)" for op
    using a by (simp add: sealed_delattr)
qed

text \<open>The theorem on a zone that stores a plain record-set: the caller receives the
  new object at address 1, and assigning to its TTL is refused.\<close>

theorem get_returns_immutable_witness:
  "fst (get writer (Inr www) 1 1 0 www_zone) = Inr (Some 1) \<and>
   zone (snd (get writer (Inr www) 1 1 0 www_zone)) = [(www, 0)] \<and>
   Immutable_setattr (heap (snd (get writer (Inr www) 1 1 0 www_zone))) 1 (\<lambda>ob. ob\<lparr>ttl := 0\<rparr>) =
     (Inl (TypeError ''object doesn't support attribute assignment''),
      heap (snd (get writer (Inr www) 1 1 0 www_zone)))"
proof -
  have l: "lookup www_zone (as_name (Inr www)) 1 1 0 = Some 0 \<and> 0 < length (heap www_zone)
             \<and> \<not> is_ImmutableRdataset (heap www_zone) 0"
    by (simp add: lookup_def www_zone_def matches_def selector_def as_name_def mk_rdataset_def
        is_ImmutableRdataset_def)
  have z: "zone www_zone = [(www, 0)]" "length (heap www_zone) = 1"
    by (simp_all add: www_zone_def)
  have "(0::int) \<le> 1" "(1::int) \<le> 65535"
    by simp_all
  from get_returns_immutable [OF this this, of www_zone "Inr www" 0 writer] l
  have "fst (get writer (Inr www) 1 1 0 www_zone) = Inr (Some (length (heap www_zone))) \<and>
        zone (snd (get writer (Inr www) 1 1 0 www_zone)) = zone www_zone \<and>
        (\<forall>op. Immutable_setattr (heap (snd (get writer (Inr www) 1 1 0 www_zone)))
                 (length (heap www_zone)) op =
               (Inl (TypeError ''object doesn't support attribute assignment''),
                heap (snd (get writer (Inr www) 1 1 0 www_zone))))"
    by blast
  then show ?thesis
    unfolding z by blast
qed

text \<open>
  C8 as stated fails where the backend stores an immutable record-set: \<open>get\<close> returns
  the stored object itself (address 0, the one the zone refers to) and allocates no
  copy.
\<close>

theorem get_stored_immutable_counterexample:
  "fst (get writer (Inr www) 1 1 0 imm_zone) = Inr (Some 0) \<and>
   zone imm_zone = [(www, 0)] \<and>
   heap (snd (get writer (Inr www) 1 1 0 imm_zone)) = heap imm_zone"
  by (simp add: get_def make_code_def get_rdataset_def lookup_def imm_zone_def matches_def
      selector_def as_name_def mk_rdataset_def is_ImmutableRdataset_def)

subsection \<open>An RRset as the first argument\<close>

text \<open>
  C10 (amended). When the first argument is an RRset, \<open>add\<close> and \<open>replace\<close> take its
  name and copy its members into a new plain \<open>Rdataset\<close> with the class, type, covers
  and TTL of the RRset (the very members, in order, when the RRset has no repeated
  member), and work on that copy. \<open>delete\<close> and \<open>delete_exact\<close> take the name and use
  the RRset object itself as the record-set; they make no copy.
\<close>

theorem rrset_normalized:
  assumes "r < length h" and "is_RRset h r" and "owner (h ! r) = Some n"
  shows "add_args method [AObj r] h =
           (Inr (n, length h),
            h @ [\<lparr>cls = Rdataset_cls, owner = None, rdclass = rdclass (h ! r), rdtype = rdtype (h ! r),
                   covers = covers (h ! r), ttl = ttl (h ! r),
                   items = set_union_update [] (items (h ! r)), immutable_init = None\<rparr>])
       \<and> (distinct (items (h ! r)) \<longrightarrow> set_union_update [] (items (h ! r)) = items (h ! r))
       \<and> delete_args method [AObj r] h = (Inr (ByRdataset n (Some r)), h)"
  using assms
  by (simp add: add_args_def delete_args_def raise_if_not_empty_def Rdataset_new_def alloc_def
      empty_Rdataset_def Rdataset_union_update_def is_ImmutableRdataset_def nth_append rds_union_update_def
      update_ttl_def set_union_update_Nil)

theorem rrset_normalized_witness:
  "add_args ''add()'' [AObj 0] rrset_heap =
     (Inr (www, 1),
      rrset_heap @ [mk_rdataset Rdataset_cls None 1 300 [a_rd ''10.0.0.1'', a_rd ''10.0.0.2'']])"
proof -
  have "0 < length rrset_heap" "is_RRset rrset_heap 0" "owner (rrset_heap ! 0) = Some www"
    by (simp_all add: rrset_heap_def is_RRset_def mk_rdataset_def)
  from rrset_normalized [OF this, of "''add()''"]
  show ?thesis
    by (simp add: rrset_heap_def mk_rdataset_def a_rd_def)
qed

text \<open>
  C10 as stated fails for \<open>delete\<close>: the record-set that comes out of reading the
  arguments is the RRset at address 0 itself, and the heap has no new object.
\<close>

theorem delete_rrset_counterexample:
  "delete_args ''delete()'' [AObj 0] rrset_heap = (Inr (ByRdataset www (Some 0)), rrset_heap) \<and>
   cls (rrset_heap ! 0) = RRset_cls"
  by (simp add: delete_args_def rrset_heap_def is_RRset_def mk_rdataset_def raise_if_not_empty_def)

subsection \<open>Empty record-sets\<close>

lemma delete_difference_calls:
  "\<exists>cs. calls (delete_difference n e r s) = calls s @ cs \<and> list_all nonempty_put cs"
  by (simp add: delete_difference_def Rdataset_difference_def alloc_def put_rdataset_simps
      delete_rdataset_simps Let_def)

lemma delete_store_calls:
  "\<exists>cs. calls (snd (delete_store method exact target s)) = calls s @ cs \<and> list_all nonempty_put cs"
proof (cases target)
  case (BySelector n c ty cv)
  then show ?thesis
    by (simp add: delete_store_def get_rdataset_def delete_rdataset_simps split: option.splits)
next
  case (ByRdataset n ro)
  show ?thesis
  proof (cases "truthy (heap s) ro")
    case False
    then show ?thesis
      using ByRdataset
      by (simp add: delete_store_def name_exists_b_def delete_name_simps)
  next
    case True
    then obtain r where r: "ro = Some r"
      by (cases ro) (simp_all add: truthy_def)
    show ?thesis
    proof (cases "lookup s n (rdclass (heap s ! r)) (rdtype (heap s ! r)) (covers (heap s ! r))")
      case None
      then show ?thesis
        using ByRdataset True r
        by (simp add: delete_store_def get_rdataset_def)
    next
      case (Some e)
      show ?thesis
      proof (cases exact)
        case False
        have "delete_store method exact target s =
               (Inr (), delete_difference n e r
                  (s\<lparr>calls := calls s @ [GetRdataset n (rdclass (heap s ! r)) (rdtype (heap s ! r))
                        (covers (heap s ! r))]\<rparr>))"
          using ByRdataset True r Some False
          by (simp add: delete_store_def get_rdataset_def)
        then show ?thesis
          using delete_difference_calls [of n e r
                  "s\<lparr>calls := calls s @ [GetRdataset n (rdclass (heap s ! r)) (rdtype (heap s ! r))
                        (covers (heap s ! r))]\<rparr>"]
          by auto
      next
        case ex: True
        let ?s1 = "s\<lparr>calls := calls s @ [GetRdataset n (rdclass (heap s ! r)) (rdtype (heap s ! r))
                        (covers (heap s ! r))]\<rparr>"
        let ?h2 = "heap s @ [rds_intersection_update (heap s ! e) (heap s ! r)]"
        show ?thesis
        proof (cases "rds_eq (?h2 ! length (heap s)) (?h2 ! r)")
          case False
          then show ?thesis
            using ByRdataset True r Some ex
            by (simp add: delete_store_def get_rdataset_def Rdataset_intersection_def alloc_def)
        next
          case eq: True
          have "delete_store method exact target s =
                 (Inr (), delete_difference n e r (?s1\<lparr>heap := ?h2\<rparr>))"
            using ByRdataset True r Some ex eq
            by (simp add: delete_store_def get_rdataset_def Rdataset_intersection_def alloc_def)
          then show ?thesis
            using delete_difference_calls [of n e r "?s1\<lparr>heap := ?h2\<rparr>"]
            by auto
        qed
      qed
    qed
  qed
qed

lemma delete_impl_calls:
  "\<exists>cs. calls (snd (delete_impl exact args s)) = calls s @ cs \<and> list_all nonempty_put cs"
proof (cases "delete_args (if exact then ''delete_exact()'' else ''delete()'') args (heap s)")
  case (Pair r h1)
  show ?thesis
  proof (cases r)
    case (Inl e)
    then show ?thesis
      using Pair by (simp add: delete_impl_def)
  next
    case (Inr target)
    then show ?thesis
      using Pair
        delete_store_calls [of "if exact then ''delete_exact()'' else ''delete()''" exact target
          "s\<lparr>heap := h1\<rparr>"]
      by (simp add: delete_impl_def)
  qed
qed

lemma new_calls_append: "calls s' = calls s @ cs \<Longrightarrow> new_calls s s' = cs"
  by (simp add: new_calls_def)

lemma delete_calls:
  "list_all nonempty_put (new_calls s (snd (delete t args s)))"
  "list_all nonempty_put (new_calls s (snd (delete_exact t args s)))"
  using delete_impl_calls [of False args s] delete_impl_calls [of True args s]
  by (auto simp: delete_def delete_exact_def check_read_only_def new_calls_def)

lemma set_serial_calls:
  "list_all nonempty_put (new_calls s (snd (set_serial t increment v na c s)))"
proof (cases "read_only t")
  case True
  then show ?thesis
    by (simp add: set_serial_def get_rdataset_def from_rdata_def alloc_def read_only_refuses
        new_calls_def Let_def split: option.splits list.splits)
next
  case False
  then show ?thesis
    by (simp add: set_serial_def get_rdataset_def from_rdata_def alloc_def replace_name_obj
        put_rdataset_simps new_calls_def Let_def split: option.splits list.splits)
qed

lemma add_store_calls:
  assumes "b < length (heap s)" and "items (heap s ! b) \<noteq> []"
  shows "list_all nonempty_put (new_calls s (snd (add_store rp n b s)))"
proof (cases rp)
  case True
  then show ?thesis
    using assms by (simp add: add_store_def put_rdataset_simps new_calls_def)
next
  case False
  show ?thesis
  proof (cases "lookup s n (rdclass (heap s ! b)) (rdtype (heap s ! b)) (covers (heap s ! b))")
    case None
    then show ?thesis
      using assms False by (simp add: add_store_def get_rdataset_def put_rdataset_simps new_calls_def)
  next
    case (Some e)
    then show ?thesis
      using assms False
      by (simp add: add_store_def get_rdataset_def put_rdataset_simps new_calls_def
          Rdataset_new_def empty_Rdataset_def alloc_def Rdataset_update_def Rdataset_union_update_def
          Rdataset_union_def is_ImmutableRdataset_def nth_append rds_union_update_def
          set_union_update_empty_iff Let_def)
  qed
qed

lemma add_args_ok:
  "add_args m args h = (Inr (n, b), h1) \<Longrightarrow> args_ok h args \<Longrightarrow> b < length h1"
  by (auto simp: add_args_def raise_if_not_empty_def Let_def args_ok_def Rdataset_new_def alloc_def
      Rdataset_union_update_def
      dest: rdataset_from_args_ok [unfolded args_ok_def]
      split: list.splits arg.splits if_splits sum.splits option.splits prod.splits)

lemma add_impl_calls:
  assumes "add_args (if rp then ''replace()'' else ''add()'') args (heap s) = (Inr (n, b), h1)"
    and "args_ok (heap s) args" and "items (h1 ! b) \<noteq> []"
  shows "list_all nonempty_put (new_calls s (snd (add_impl rp args s)))"
proof -
  have b: "b < length (heap (s\<lparr>heap := h1\<rparr>))"
    using add_args_ok [OF assms(1,2)] by simp
  have i: "items (heap (s\<lparr>heap := h1\<rparr>) ! b) \<noteq> []"
    using assms(3) by simp
  from add_store_calls [OF b i, of rp n]
  show ?thesis
    using assms(1) by (simp add: add_impl_def new_calls_def)
qed

lemma add_calls_any:
  assumes "args_ok (heap s) args"
  shows "add_args ''add()'' args (heap s) = (Inr (n, b), h1) \<Longrightarrow> items (h1 ! b) \<noteq> [] \<Longrightarrow>
           list_all nonempty_put (new_calls s (snd (add t args s)))"
    and "add_args ''replace()'' args (heap s) = (Inr (n, b), h1) \<Longrightarrow> items (h1 ! b) \<noteq> [] \<Longrightarrow>
           list_all nonempty_put (new_calls s (snd (replace t args s)))"
  using add_impl_calls [of False args s n b h1] add_impl_calls [of True args s n b h1] assms
  by (auto simp: add_def replace_def check_read_only_def new_calls_def)

lemma delete_empty_remainder:
  assumes "\<not> read_only t" and "items (heap s ! b) \<noteq> []"
    and "lookup s n (rdclass (heap s ! b)) (rdtype (heap s ! b)) (covers (heap s ! b)) = Some e"
    and "set_difference_update (items (heap s ! e)) (items (heap s ! b)) = []"
  shows "new_calls s (snd (delete t [AName n, AObj b] s)) =
           [GetRdataset n (rdclass (heap s ! b)) (rdtype (heap s ! b)) (covers (heap s ! b)),
            DeleteRdataset n (rdclass (heap s ! e)) (rdtype (heap s ! e)) (covers (heap s ! e))]"
  using assms
  by (simp add: delete_def check_read_only_def delete_impl_def delete_args_def
      rdataset_from_args_def raise_if_not_empty_def delete_store_def truthy_def get_rdataset_def
      delete_difference_def Rdataset_difference_def alloc_def rds_difference_update_def
      delete_rdataset_simps new_calls_def)

text \<open>
  C9 (amended). \<open>delete\<close>, \<open>delete_exact\<close> and \<open>set_serial\<close> never write an empty
  record-set, whatever their arguments: every write they issue carries at least one
  member. When the difference computed by \<open>delete\<close> is empty, the calls it issues are
  the lookup and a delete of the selector, and no write. \<open>add\<close> and \<open>replace\<close> write
  the record-set they computed without looking at its size; their writes carry at
  least one member when the record-set their arguments stand for has one.
\<close>

theorem no_empty_write:
  "list_all nonempty_put (new_calls s (snd (delete t args s)))
   \<and> list_all nonempty_put (new_calls s (snd (delete_exact t args s)))
   \<and> list_all nonempty_put (new_calls s (snd (set_serial t increment v na c s)))
   \<and> (\<forall>n b h1. args_ok (heap s) args \<and> add_args ''add()'' args (heap s) = (Inr (n, b), h1) \<and>
          items (h1 ! b) \<noteq> [] \<longrightarrow>
        list_all nonempty_put (new_calls s (snd (add t args s))))
   \<and> (\<forall>n b h1. args_ok (heap s) args \<and> add_args ''replace()'' args (heap s) = (Inr (n, b), h1) \<and>
          items (h1 ! b) \<noteq> [] \<longrightarrow>
        list_all nonempty_put (new_calls s (snd (replace t args s))))
   \<and> (\<forall>n b e. \<not> read_only t \<and> args = [AName n, AObj b] \<and> items (heap s ! b) \<noteq> [] \<and>
          lookup s n (rdclass (heap s ! b)) (rdtype (heap s ! b)) (covers (heap s ! b)) = Some e \<and>
          set_difference_update (items (heap s ! e)) (items (heap s ! b)) = [] \<longrightarrow>
          new_calls s (snd (delete t args s)) =
            [GetRdataset n (rdclass (heap s ! b)) (rdtype (heap s ! b)) (covers (heap s ! b)),
             DeleteRdataset n (rdclass (heap s ! e)) (rdtype (heap s ! e)) (covers (heap s ! e))])"
  using add_calls_any [of s args]
  by (auto simp: delete_calls set_serial_calls delete_empty_remainder)

text \<open>The theorem on a zone whose only address record is deleted: the selector is
  deleted and nothing is written.\<close>

theorem no_empty_write_witness:
  "new_calls del_state (snd (delete writer [AName www, AObj 1] del_state)) =
     [GetRdataset www 1 1 0, DeleteRdataset www 1 1 0]"
proof -
  have p: "\<not> read_only writer \<and> [AName www, AObj 1] = [AName www, AObj 1] \<and>
        items (heap del_state ! 1) \<noteq> [] \<and>
        lookup del_state www (rdclass (heap del_state ! 1)) (rdtype (heap del_state ! 1))
          (covers (heap del_state ! 1)) = Some 0 \<and>
        set_difference_update (items (heap del_state ! 0)) (items (heap del_state ! 1)) = []"
    by (simp add: writer_def del_state_def mk_rdataset_def lookup_def matches_def selector_def
        set_difference_update_def)
  have q: "rdclass (heap del_state ! 1) = 1" "rdtype (heap del_state ! 1) = 1"
       "covers (heap del_state ! 1) = 0" "rdclass (heap del_state ! 0) = 1"
       "rdtype (heap del_state ! 0) = 1" "covers (heap del_state ! 0) = 0"
    by (simp_all add: del_state_def mk_rdataset_def)
  from no_empty_write [where s = del_state and t = writer and args = "[AName www, AObj 1]"] p
  have "new_calls del_state (snd (delete writer [AName www, AObj 1] del_state)) =
            [GetRdataset www (rdclass (heap del_state ! 1)) (rdtype (heap del_state ! 1))
               (covers (heap del_state ! 1)),
             DeleteRdataset www (rdclass (heap del_state ! 0)) (rdtype (heap del_state ! 0))
               (covers (heap del_state ! 0))]"
    by blast
  then show ?thesis
    by (simp only: q)
qed

text \<open>
  C9 as stated fails for \<open>replace\<close> (and likewise \<open>add\<close>): replacing with an empty
  record-set issues a write of length 0, not a delete.
\<close>

theorem replace_empty_counterexample:
  "calls (snd (replace writer [AName www, AObj 0] empty_arg_state)) = [PutRdataset www 0 0]"
  by (simp add: replace_name_obj writer_def put_rdataset_simps empty_arg_state_def mk_rdataset_def)

text \<open>\<open>add\<close> does the same where nothing is stored: after the lookup it writes the
  empty record-set.\<close>

lemma add_empty_writes:
  "calls (snd (add writer [AName www, AObj 0] empty_arg_state)) =
     [GetRdataset www 1 1 0, PutRdataset www 0 0]"
  by (simp add: add_def check_read_only_def writer_def add_impl_def add_args_name_obj
      add_store_def get_rdataset_def lookup_def put_rdataset_simps empty_arg_state_def
      mk_rdataset_def)

subsection \<open>Replacing and adding\<close>

lemma ab_state_facts:
  "\<not> read_only writer" "heap_ok ab_state" "2 < length (heap ab_state)"
  "rdclass (heap ab_state ! 2) = 1" "rdtype (heap ab_state ! 2) = 1" "covers (heap ab_state ! 2) = 0"
  "lookup ab_state www 1 1 0 = Some 0" "is_ImmutableRdataset (heap ab_state) 0"
  "distinct (items (heap ab_state ! 0))" "length (heap ab_state) = 3"
  "content (rds_union_update (heap ab_state ! 0) (heap ab_state ! 2)) =
     (1, 1, 0, 60, [a_rd ''10.0.0.1'', a_rd ''10.0.0.2''])"
  "content (heap ab_state ! 2) = (1, 1, 0, 60, [a_rd ''10.0.0.2''])"
  "lookup ab_state www 1 15 0 = Some 1"
  by (simp_all add: writer_def heap_ok_def ab_state_def mk_rdataset_def lookup_def matches_def
      selector_def is_ImmutableRdataset_def content_def rds_union_update_def update_ttl_def
      set_union_update_def set_add_def a_rd_def)




lemma get_content:
  assumes "0 \<le> c" "c \<le> 65535" "0 \<le> ty" "ty \<le> 65535"
    and "lookup s n c ty cv = Some a" and "a < length (heap s)"
  shows "\<exists>r. fst (get t (Inr n) c ty cv s) = Inr (Some r) \<and>
             cls (heap (snd (get t (Inr n) c ty cv s)) ! r) = ImmutableRdataset_cls \<and>
             content (heap (snd (get t (Inr n) c ty cv s)) ! r) = content (heap s ! a)"
proof (cases "is_ImmutableRdataset (heap s) a")
  case True
  then show ?thesis
    using assms get_found_immutable [of c ty s "Inr n" cv a t]
    by (simp add: as_name_def is_ImmutableRdataset_def)
next
  case False
  then show ?thesis
    using assms get_found_mutable [of c ty s "Inr n" cv a t]
    by (simp add: as_name_def content_def)
qed



lemma find_Some_set: "find P xs = Some x \<Longrightarrow> x \<in> set xs \<and> P x"
  by (induction xs) (auto split: if_splits)

lemma lookup_Some:
  assumes "lookup s n c ty cv = Some a"
  shows "(n, a) \<in> set (zone s)" and "selector (heap s ! a) = (c, ty, cv)"
proof -
  from assms obtain e where e: "find (matches (heap s) n c ty cv) (zone s) = Some e" "snd e = a"
    by (auto simp: lookup_def)
  from find_Some_set [OF e(1)] e(2)
  show "(n, a) \<in> set (zone s)" and "selector (heap s ! a) = (c, ty, cv)"
    by (auto simp: matches_def)
qed

lemma lookup_in_heap:
  "heap_ok s \<Longrightarrow> lookup s n c ty cv = Some a \<Longrightarrow> a < length (heap s)"
  using lookup_Some(1) [of s n c ty cv a]
  by (auto simp: heap_ok_def list_all_iff)

lemma content_union_cong:
  "content x = content y \<Longrightarrow> content (rds_union_update x z) = content (rds_union_update y z)"
  by (simp add: content_def rds_union_update_def update_ttl_def)

lemma selector_union: "selector (rds_union_update x z) = selector x"
  by (simp add: selector_def rds_union_update_def update_ttl_def)

lemma add_nothing_there:
  assumes "\<not> read_only t"
    and "lookup s n (rdclass (heap s ! b)) (rdtype (heap s ! b)) (covers (heap s ! b)) = None"
  shows "fst (add t [AName n, AObj b] s) = Inr ()"
    and "heap (snd (add t [AName n, AObj b] s)) = heap s"
    and "zone (snd (add t [AName n, AObj b] s)) =
           (n, b) # filter (\<lambda>e. \<not> matches (heap s) n (rdclass (heap s ! b)) (rdtype (heap s ! b))
                                (covers (heap s ! b)) e) (zone s)"
  using assms
  by (simp_all add: add_def check_read_only_def add_impl_def add_args_name_obj add_store_def
      get_rdataset_def put_rdataset_simps)

lemma add_to_mutable:
  assumes "\<not> read_only t"
    and "lookup s n (rdclass (heap s ! b)) (rdtype (heap s ! b)) (covers (heap s ! b)) = Some a"
    and "\<not> is_ImmutableRdataset (heap s) a"
  shows "fst (add t [AName n, AObj b] s) = Inr ()"
    and "heap (snd (add t [AName n, AObj b] s)) =
           heap s @ [rds_union_update (heap s ! a) (heap s ! b)]"
    and "zone (snd (add t [AName n, AObj b] s)) =
           (n, length (heap s)) #
           filter (\<lambda>e. \<not> matches (heap s @ [rds_union_update (heap s ! a) (heap s ! b)]) n
                          (rdclass (heap s ! a)) (rdtype (heap s ! a)) (covers (heap s ! a)) e) (zone s)"
  using assms
  by (simp_all add: add_def check_read_only_def add_impl_def add_args_name_obj add_store_def
      get_rdataset_def Rdataset_union_def alloc_def put_rdataset_simps selector_union [unfolded selector_def, simplified])

lemma empty_Rdataset_fields:
  "cls (empty_Rdataset c ty cv tt) = Rdataset_cls"
  "rdclass (empty_Rdataset c ty cv tt) = c"
  "rdtype (empty_Rdataset c ty cv tt) = ty"
  "covers (empty_Rdataset c ty cv tt) = cv"
  "ttl (empty_Rdataset c ty cv tt) = tt"
  "items (empty_Rdataset c ty cv tt) = []"
  by (simp_all add: empty_Rdataset_def)

lemma add_to_immutable:
  assumes "\<not> read_only t"
    and "lookup s n (rdclass (heap s ! b)) (rdtype (heap s ! b)) (covers (heap s ! b)) = Some a"
    and "is_ImmutableRdataset (heap s) a"
    and "a < length (heap s)" and "b < length (heap s)"
  shows "fst (add t [AName n, AObj b] s) = Inr ()"
    and "heap (snd (add t [AName n, AObj b] s)) =
           heap s @ [rds_union_update (empty_Rdataset (rdclass (heap s ! a)) (rdtype (heap s ! a)) (covers (heap s ! a)) 0) (heap s ! a),
                     rds_union_update (rds_union_update (empty_Rdataset (rdclass (heap s ! a)) (rdtype (heap s ! a)) (covers (heap s ! a)) 0) (heap s ! a)) (heap s ! b)]"
    and "zone (snd (add t [AName n, AObj b] s)) =
           (n, length (heap s) + 1) #
           filter (\<lambda>e. \<not> matches (heap (snd (add t [AName n, AObj b] s))) n
                          (rdclass (heap s ! a)) (rdtype (heap s ! a)) (covers (heap s ! a)) e) (zone s)"
  using assms
  by (simp_all add: add_def check_read_only_def add_impl_def add_args_name_obj add_store_def
      get_rdataset_def Rdataset_union_def alloc_def Rdataset_new_def Rdataset_update_def
      Rdataset_union_update_def is_ImmutableRdataset_def nth_append put_rdataset_simps
      empty_Rdataset_fields selector_union [unfolded selector_def, simplified])

lemma selector_copy:
  "selector (rds_union_update (empty_Rdataset (rdclass e) (rdtype e) (covers e) 0) e) = selector e"
  by (simp add: selector_union) (simp add: selector_def empty_Rdataset_def)

lemma content_copy:
  "distinct (items e) \<Longrightarrow>
   content (rds_union_update (empty_Rdataset (rdclass e) (rdtype e) (covers e) 0) e) = content e"
  by (simp add: content_def rds_union_update_def update_ttl_def empty_Rdataset_def
      set_union_update_Nil)

lemma cls_copy:
  "cls (rds_union_update (empty_Rdataset c ty cv 0) e) = Rdataset_cls"
  by (simp add: rds_union_update_def update_ttl_def empty_Rdataset_def)

lemma lookup_head:
  "zone s' = (n, u) # rest \<Longrightarrow> selector (heap s' ! u) = (c, ty, cv) \<Longrightarrow>
   lookup s' n c ty cv = Some u"
  by (simp add: lookup_def matches_def)

text \<open>
  C4. In a writable transaction, \<open>add\<close> with a name and a record-set B succeeds and
  leaves every object that was in the heap as it was. When nothing was stored at the
  name and the selector of B, a following \<open>get\<close> finds the contents of B. When a
  record-set A was stored there, a following \<open>get\<close> finds the contents of the union
  of A and B. When the stored A is immutable, the first new object is a plain
  \<open>Rdataset\<close> with the contents of A, and the union that is written is computed from
  that copy.
\<close>

theorem add_then_get:
  fixes t s n b
  defines "cB \<equiv> rdclass (heap s ! b)" and "tB \<equiv> rdtype (heap s ! b)"
    and "cvB \<equiv> covers (heap s ! b)"
  defines "s1 \<equiv> snd (add t [AName n, AObj b] s)"
  defines "s2 \<equiv> snd (get t (Inr n) cB tB cvB s1)"
  assumes w: "\<not> read_only t" and ok: "heap_ok s" and b: "b < length (heap s)"
    and rg: "0 \<le> cB" "cB \<le> 65535" "0 \<le> tB" "tB \<le> 65535"
  shows "fst (add t [AName n, AObj b] s) = Inr ()
     \<and> take (length (heap s)) (heap s1) = heap s
     \<and> (lookup s n cB tB cvB = None \<longrightarrow>
          (\<exists>r. fst (get t (Inr n) cB tB cvB s1) = Inr (Some r) \<and>
                content (heap s2 ! r) = content (heap s ! b)))
     \<and> (\<forall>a. lookup s n cB tB cvB = Some a \<and> \<not> is_ImmutableRdataset (heap s) a \<longrightarrow>
          (\<exists>r. fst (get t (Inr n) cB tB cvB s1) = Inr (Some r) \<and>
                content (heap s2 ! r) = content (rds_union_update (heap s ! a) (heap s ! b))))
     \<and> (\<forall>a. lookup s n cB tB cvB = Some a \<and> is_ImmutableRdataset (heap s) a \<and>
             distinct (items (heap s ! a)) \<longrightarrow>
          cls (heap s1 ! length (heap s)) = Rdataset_cls \<and>
          content (heap s1 ! length (heap s)) = content (heap s ! a) \<and>
          heap s1 ! (length (heap s) + 1) =
             rds_union_update (heap s1 ! length (heap s)) (heap s ! b) \<and>
          (\<exists>r. fst (get t (Inr n) cB tB cvB s1) = Inr (Some r) \<and>
                content (heap s2 ! r) = content (rds_union_update (heap s ! a) (heap s ! b))))"
proof (cases "lookup s n cB tB cvB")
  case None
  note f = add_nothing_there [OF w None [unfolded cB_def tB_def cvB_def]]
  have l: "lookup s1 n cB tB cvB = Some b"
    by (rule lookup_head) (simp_all add: s1_def f selector_def cB_def tB_def cvB_def)
  have "b < length (heap s1)"
    using b by (simp add: s1_def f)
  from get_content [OF rg l this, of t]
  have "\<exists>r. fst (get t (Inr n) cB tB cvB s1) = Inr (Some r) \<and>
             content (heap s2 ! r) = content (heap s ! b)"
    by (auto simp: s2_def s1_def f)
  then show ?thesis
    using None by (simp add: f s1_def)
next
  case (Some a)
  have a: "a < length (heap s)"
    using ok Some by (rule lookup_in_heap)
  have sel: "selector (heap s ! a) = (cB, tB, cvB)"
    using Some by (rule lookup_Some(2))
  show ?thesis
  proof (cases "is_ImmutableRdataset (heap s) a")
    case False
    note f = add_to_mutable [OF w Some [unfolded cB_def tB_def cvB_def] False]
    have l: "lookup s1 n cB tB cvB = Some (length (heap s))"
      by (rule lookup_head) (simp_all add: s1_def f selector_union sel)
    have "length (heap s) < length (heap s1)"
      by (simp add: s1_def f)
    from get_content [OF rg l this, of t]
    have "\<exists>r. fst (get t (Inr n) cB tB cvB s1) = Inr (Some r) \<and>
               content (heap s2 ! r) = content (rds_union_update (heap s ! a) (heap s ! b))"
      by (auto simp: s2_def s1_def f)
    then show ?thesis
      using Some False by (simp add: f s1_def)
  next
    case True
    note f = add_to_immutable [OF w Some [unfolded cB_def tB_def cvB_def] True a b]
    have l: "lookup s1 n cB tB cvB = Some (length (heap s) + 1)"
      by (rule lookup_head [OF f(3) [folded s1_def]])
         (simp add: s1_def f(2) nth_append selector_union selector_copy [unfolded selector_union] sel)
    have "length (heap s) + 1 < length (heap s1)"
      by (simp add: s1_def f)
    from get_content [OF rg l this, of t]
    have g: "\<exists>r. fst (get t (Inr n) cB tB cvB s1) = Inr (Some r) \<and>
               content (heap s2 ! r) =
                 content (rds_union_update
                   (rds_union_update (empty_Rdataset (rdclass (heap s ! a)) (rdtype (heap s ! a))
                       (covers (heap s ! a)) 0) (heap s ! a)) (heap s ! b))"
      by (auto simp: s2_def s1_def f(2) nth_append)
    have c: "distinct (items (heap s ! a)) \<Longrightarrow>
             content (rds_union_update
                   (rds_union_update (empty_Rdataset (rdclass (heap s ! a)) (rdtype (heap s ! a))
                       (covers (heap s ! a)) 0) (heap s ! a)) (heap s ! b))
             = content (rds_union_update (heap s ! a) (heap s ! b))"
      by (rule content_union_cong) (rule content_copy)
    show ?thesis
      using Some True g c
      by (auto simp: f(1) f(2) s1_def nth_append cls_copy content_copy)
  qed
qed

text \<open>The theorem on the example zone, where the stored address record-set is
  immutable: the copy is the plain record-set at address 3, the first three objects are
  untouched, and \<open>get\<close> finds both records with the smaller TTL.\<close>

theorem add_then_get_witness:
  "cls (heap (snd (add writer [AName www, AObj 2] ab_state)) ! 3) = Rdataset_cls \<and>
   take 3 (heap (snd (add writer [AName www, AObj 2] ab_state))) = heap ab_state \<and>
   (\<exists>r. fst (get writer (Inr www) 1 1 0 (snd (add writer [AName www, AObj 2] ab_state))) = Inr (Some r) \<and>
        content (heap (snd (get writer (Inr www) 1 1 0 (snd (add writer [AName www, AObj 2] ab_state)))) ! r)
          = (1, 1, 0, 60, [a_rd ''10.0.0.1'', a_rd ''10.0.0.2'']))"
proof -
  have rg: "0 \<le> rdclass (heap ab_state ! 2)" "rdclass (heap ab_state ! 2) \<le> 65535"
       "0 \<le> rdtype (heap ab_state ! 2)" "rdtype (heap ab_state ! 2) \<le> 65535"
    unfolding ab_state_facts by simp_all
  note T = add_then_get [OF ab_state_facts(1-3) rg, of www,
      unfolded ab_state_facts(4-6) ab_state_facts(10)]
  from T ab_state_facts(7-9)
  have "cls (heap (snd (add writer [AName www, AObj 2] ab_state)) ! 3) = Rdataset_cls \<and>
   take 3 (heap (snd (add writer [AName www, AObj 2] ab_state))) = heap ab_state \<and>
   (\<exists>r. fst (get writer (Inr www) 1 1 0 (snd (add writer [AName www, AObj 2] ab_state))) = Inr (Some r) \<and>
        content (heap (snd (get writer (Inr www) 1 1 0 (snd (add writer [AName www, AObj 2] ab_state)))) ! r)
          = content (rds_union_update (heap ab_state ! 0) (heap ab_state ! 2)))"
    by blast
  then show ?thesis
    unfolding ab_state_facts(11) .
qed

subsection \<open>Exact deletion\<close>

lemma matches_append:
  "snd x < length h \<Longrightarrow> matches (h @ xs) n c ty cv x = matches h n c ty cv x"
  by (simp add: matches_def nth_append)

lemma filter_matches_append:
  assumes "list_all (\<lambda>e. snd e < length h) zs"
  shows "filter (\<lambda>e. \<not> matches (h @ xs) n c ty cv e) zs = filter (\<lambda>e. \<not> matches h n c ty cv e) zs"
  using assms by (induction zs) (simp_all add: matches_append)

lemma view_append:
  assumes "list_all (\<lambda>e. snd e < length h) zs"
  shows "map (\<lambda>e. (fst e, (h @ xs) ! snd e)) zs = map (\<lambda>e. (fst e, h ! snd e)) zs"
  using assms by (induction zs) (simp_all add: nth_append)

lemma list_all_filter: "list_all P zs \<Longrightarrow> list_all P (filter Q zs)"
  by (induction zs) simp_all

text \<open>The contents of the zone after the difference has been removed, in terms of the
  heap before: they do not depend on objects allocated in between.\<close>

lemma delete_difference_view:
  assumes z: "list_all (\<lambda>e. snd e < length h) (zone s)"
    and h: "heap s = h @ xs" and e: "e < length h" and r: "r < length h"
  shows "zone_view (delete_difference n e r s) =
     (if set_difference_update (items (h ! e)) (items (h ! r)) = []
      then map (\<lambda>x. (fst x, h ! snd x))
             (filter (\<lambda>x. \<not> matches h n (rdclass (h ! e)) (rdtype (h ! e)) (covers (h ! e)) x) (zone s))
      else (n, rds_difference_update (h ! e) (h ! r)) #
           map (\<lambda>x. (fst x, h ! snd x))
             (filter (\<lambda>x. \<not> matches h n (rdclass (h ! e)) (rdtype (h ! e)) (covers (h ! e)) x) (zone s)))"
proof -
  have f: "filter (\<lambda>x. \<not> matches ((h @ xs) @ ys) n c ty cv x) (zone s)
           = filter (\<lambda>x. \<not> matches h n c ty cv x) (zone s)" for ys c ty cv
    using z unfolding append_assoc by (rule filter_matches_append)
  have v: "map (\<lambda>x. (fst x, ((h @ xs) @ ys) ! snd x)) (filter Q (zone s))
           = map (\<lambda>x. (fst x, h ! snd x)) (filter Q (zone s))" for ys Q
    using z unfolding append_assoc by (intro view_append list_all_filter)
  have n: "(h @ xs) ! e = h ! e" "(h @ xs) ! r = h ! r"
    using e r by (simp_all add: nth_append)
  have l: "((h @ xs) @ [d]) ! length (h @ xs) = d" for d :: rdataset
    by (rule nth_append_length)
  show ?thesis
    by (simp add: delete_difference_def Rdataset_difference_def alloc_def zone_view_def h
        delete_rdataset_simps put_rdataset_simps rds_difference_update_def f v n l
        del: append_assoc length_append)
qed

lemma zone_view_cong: "heap s = heap s' \<Longrightarrow> zone s = zone s' \<Longrightarrow> zone_view s = zone_view s'"
  by (simp add: zone_view_def)

lemma delete_store_not_exact: "fst (delete_store m False tg s) = Inr ()"
  by (cases tg) (simp_all add: delete_store_def get_rdataset_def Let_def split: option.splits)

lemma delete_store_fail_unchanged:
  assumes "fst (delete_store m ex tg s) = Inl err"
  shows "zone (snd (delete_store m ex tg s)) = zone s \<and>
         take (length (heap s)) (heap (snd (delete_store m ex tg s))) = heap s"
proof (cases tg)
  case (BySelector n c ty cv)
  then show ?thesis
    using assms
    by (simp add: delete_store_def get_rdataset_def Let_def split: option.splits if_splits)
next
  case (ByRdataset n ro)
  then show ?thesis
    using assms
    by (auto simp: delete_store_def get_rdataset_def name_exists_b_def Rdataset_intersection_def
        alloc_def Let_def truthy_def split: option.splits if_splits)
qed

lemma delete_store_exact_view:
  assumes ok: "heap_ok s"
    and tg: "\<And>n r. tg = ByRdataset n (Some r) \<Longrightarrow> r < length (heap s)"
    and success: "fst (delete_store m True tg s) = Inr ()"
  shows "zone_view (snd (delete_store m True tg s)) = zone_view (snd (delete_store m' False tg s))"
proof (cases tg)
  case (BySelector n c ty cv)
  then show ?thesis
    using success
    by (simp add: delete_store_def get_rdataset_def Let_def split: option.splits)
next
  case (ByRdataset n ro)
  show ?thesis
  proof (cases "truthy (heap s) ro")
    case False
    then show ?thesis
      using ByRdataset success
      by (simp add: delete_store_def name_exists_b_def zone_view_def delete_name_simps
          split: if_splits)
  next
    case True
    then obtain r where ro: "ro = Some r"
      by (cases ro) (simp_all add: truthy_def)
    have r: "r < length (heap s)"
      using tg ByRdataset ro by simp
    let ?c = "rdclass (heap s ! r)" and ?ty = "rdtype (heap s ! r)" and ?cv = "covers (heap s ! r)"
    let ?s1 = "s\<lparr>calls := calls s @ [GetRdataset n ?c ?ty ?cv]\<rparr>"
    show ?thesis
    proof (cases "lookup s n ?c ?ty ?cv")
      case None
      then show ?thesis
        using ByRdataset ro True success
        by (simp add: delete_store_def get_rdataset_def)
    next
      case (Some e)
      have e: "e < length (heap s)"
        using ok Some by (rule lookup_in_heap)
      let ?i = "rds_intersection_update (heap s ! e) (heap s ! r)"
      have z: "list_all (\<lambda>x. snd x < length (heap s)) (zone ?s1)"
        using ok by (simp add: heap_ok_def)
      have eq: "rds_eq ((heap s @ [?i]) ! length (heap s)) ((heap s @ [?i]) ! r)"
        using ByRdataset ro True success Some
        by (simp add: delete_store_def get_rdataset_def Rdataset_intersection_def alloc_def
            split: if_splits)
      have x: "snd (delete_store m True tg s) = delete_difference n e r (?s1\<lparr>heap := heap s @ [?i]\<rparr>)"
        using ByRdataset ro True Some eq
        by (simp add: delete_store_def get_rdataset_def Rdataset_intersection_def alloc_def)
      have y: "snd (delete_store m' False tg s) = delete_difference n e r ?s1"
        using ByRdataset ro True Some
        by (simp add: delete_store_def get_rdataset_def)
      have "zone_view (delete_difference n e r (?s1\<lparr>heap := heap s @ [?i]\<rparr>))
            = zone_view (delete_difference n e r ?s1)"
        using delete_difference_view [of "heap s" "?s1\<lparr>heap := heap s @ [?i]\<rparr>" "[?i]" e r n]
              delete_difference_view [of "heap s" ?s1 "[]" e r n] z e r
        by simp
      then show ?thesis
        by (simp add: x y)
    qed
  qed
qed

lemma prefix_length:
  assumes "take (length h) h1 = h"
  shows "length h \<le> length h1"
proof -
  have "length (take (length h) h1) = length h"
    using assms by simp
  then show ?thesis
    by simp
qed

lemma prefix_trans:
  assumes "take (length h) h1 = h" and "take (length h1) hf = h1"
  shows "take (length h) hf = h"
proof -
  have "take (length h) hf = take (length h) (take (length h1) hf)"
    using prefix_length [OF assms(1)] by (simp add: min_def)
  then show ?thesis
    using assms by simp
qed

lemma heap_ok_grow:
  "heap_ok s \<Longrightarrow> take (length (heap s)) h1 = heap s \<Longrightarrow> heap_ok (s\<lparr>heap := h1\<rparr>)"
  using prefix_length [of "heap s" h1]
  by (auto simp: heap_ok_def list_all_iff)

lemma delete_exact_fail_unchanged:
  assumes "\<not> read_only t" and "fst (delete_exact t args s) = Inl err"
  shows "zone (snd (delete_exact t args s)) = zone s \<and>
         take (length (heap s)) (heap (snd (delete_exact t args s))) = heap s"
proof (cases "delete_args ''delete_exact()'' args (heap s)")
  case (Pair r h1)
  note p = delete_args_heap [OF Pair]
  show ?thesis
  proof (cases r)
    case (Inl e)
    then show ?thesis
      using assms(1) Pair p by (simp add: delete_exact_def check_read_only_def delete_impl_def)
  next
    case (Inr tg)
    have d: "delete_exact t args s = delete_store ''delete_exact()'' True tg (s\<lparr>heap := h1\<rparr>)"
      using assms(1) Pair Inr by (simp add: delete_exact_def check_read_only_def delete_impl_def)
    from delete_store_fail_unchanged [of "''delete_exact()''" True tg "s\<lparr>heap := h1\<rparr>" err] assms(2)
    have "zone (snd (delete_exact t args s)) = zone s \<and>
          take (length h1) (heap (snd (delete_exact t args s))) = h1"
      by (simp add: d)
    then show ?thesis
      using prefix_trans [OF p] by blast
  qed
qed

lemma delete_exact_success_view:
  assumes "\<not> read_only t" and ok: "heap_ok s" and args: "args_ok (heap s) args"
    and success: "fst (delete_exact t args s) = Inr ()"
  shows "fst (delete t args s) = Inr () \<and>
         zone_view (snd (delete_exact t args s)) = zone_view (snd (delete t args s))"
proof (cases "delete_args ''delete_exact()'' args (heap s)")
  case (Pair r h1)
  note p = delete_args_heap [OF Pair]
  show ?thesis
  proof (cases r)
    case (Inl e)
    then show ?thesis
      using assms(1) Pair success
      by (simp add: delete_exact_def check_read_only_def delete_impl_def)
  next
    case (Inr tg)
    have a: "delete_args ''delete_exact()'' args (heap s) = (Inr tg, h1)"
      using Pair Inr by simp
    have d: "delete_exact t args s = delete_store ''delete_exact()'' True tg (s\<lparr>heap := h1\<rparr>)"
      using assms(1) a by (simp add: delete_exact_def check_read_only_def delete_impl_def)
    have d': "delete t args s = delete_store ''delete()'' False tg (s\<lparr>heap := h1\<rparr>)"
      using assms(1) delete_args_method [OF a, of "''delete()''"]
      by (simp add: delete_def check_read_only_def delete_impl_def)
    have ok1: "heap_ok (s\<lparr>heap := h1\<rparr>)"
      using ok p by (rule heap_ok_grow)
    have tg: "r < length (heap (s\<lparr>heap := h1\<rparr>))" if "tg = ByRdataset n (Some r)" for n r
      using delete_args_ok [OF a [unfolded that] args] by simp
    from delete_store_exact_view [OF ok1 tg success [unfolded d], where m' = "''delete()''"]
    show ?thesis
      by (simp add: d d' delete_store_not_exact)
  qed
qed

text \<open>When exactly \<open>delete_exact\<close> fails, for each kind of target.\<close>

lemma delete_exact_target:
  assumes "\<not> read_only t" and "delete_args ''delete_exact()'' args (heap s) = (Inr tg, h1)"
  shows "delete_exact t args s = delete_store ''delete_exact()'' True tg (s\<lparr>heap := h1\<rparr>)"
  using assms by (simp add: delete_exact_def check_read_only_def delete_impl_def)

lemma delete_store_exact_rdataset:
  assumes b: "b < length (heap s)"
    and l: "lookup s n (rdclass (heap s ! b)) (rdtype (heap s ! b)) (covers (heap s ! b)) = Some e"
  shows "(\<exists>m. fst (delete_store mth True (ByRdataset n (Some b)) s) = Inl (DeleteNotExact m)) \<longleftrightarrow>
         \<not> rds_eq (rds_intersection_update (heap s ! e) (heap s ! b)) (heap s ! b)"
proof (cases "items (heap s ! b) = []")
  case True
  have ex: "list_ex (\<lambda>x. fst x = n) (zone s)"
    using lookup_Some(1) [OF l] by (force simp: list_ex_iff)
  have "rds_eq (rds_intersection_update (heap s ! e) (heap s ! b)) (heap s ! b)"
    using lookup_Some(2) [OF l] True
    by (simp add: rds_eq_def rds_intersection_update_def update_ttl_def selector_def
        set_intersection_update_def set_eq_def)
  then show ?thesis
    using True ex
    by (simp add: delete_store_def truthy_def name_exists_b_def)
next
  case False
  then show ?thesis
    using assms
    by (simp add: delete_store_def truthy_def get_rdataset_def Rdataset_intersection_def
        alloc_def nth_append)
qed

lemma delete_store_exact_selector:
  "(\<exists>m. fst (delete_store mth True (BySelector n c ty cv) s) = Inl (DeleteNotExact m)) \<longleftrightarrow>
   lookup s n c ty cv = None"
  by (simp add: delete_store_def get_rdataset_def split: option.splits)

lemma delete_store_exact_name:
  "(\<exists>m. fst (delete_store mth True (ByRdataset n None) s) = Inl (DeleteNotExact m)) \<longleftrightarrow>
   \<not> list_ex (\<lambda>x. fst x = n) (zone s)"
  by (simp add: delete_store_def truthy_def name_exists_b_def)

lemma delete_store_dichotomy:
  "fst (delete_store mth ex tg s) = Inr () \<or> (\<exists>m. fst (delete_store mth ex tg s) = Inl (DeleteNotExact m))"
  by (cases tg)
     (auto simp: delete_store_def get_rdataset_def name_exists_b_def Rdataset_intersection_def
        alloc_def Let_def split: option.splits if_splits)

lemma delete_store_success_iff:
  "fst (delete_store mth ex tg s) = Inr () \<longleftrightarrow>
   \<not> (\<exists>m. fst (delete_store mth ex tg s) = Inl (DeleteNotExact m))"
  using delete_store_dichotomy [of mth ex tg s] by auto

lemma delete_store_exact_missing:
  assumes "items (heap s ! b) \<noteq> []"
    and "lookup s n (rdclass (heap s ! b)) (rdtype (heap s ! b)) (covers (heap s ! b)) = None"
  shows "\<exists>m. fst (delete_store mth True (ByRdataset n (Some b)) s) = Inl (DeleteNotExact m)"
  using assms by (simp add: delete_store_def truthy_def get_rdataset_def)

lemma delete_store_exact_empty:
  assumes "items (heap s ! b) = []"
  shows "(\<exists>m. fst (delete_store mth True (ByRdataset n (Some b)) s) = Inl (DeleteNotExact m)) \<longleftrightarrow>
         \<not> list_ex (\<lambda>x. fst x = n) (zone s)"
  using assms by (simp add: delete_store_def truthy_def name_exists_b_def)

lemma set_eq_intersection:
  assumes "distinct xs" and "distinct ys"
  shows "set_eq (set_intersection_update xs ys) ys \<longleftrightarrow> set ys \<subseteq> set xs"
proof -
  let ?i = "filter (\<lambda>x. x \<in> set ys) xs"
  have d: "distinct ?i"
    using assms(1) by simp
  have s: "set ?i = set xs \<inter> set ys"
    by auto
  have "length ?i = length ys \<longleftrightarrow> set ys \<subseteq> set xs"
  proof
    assume "length ?i = length ys"
    then have "card (set xs \<inter> set ys) = card (set ys)"
      using d assms(2) s by (metis distinct_card)
    then have "set xs \<inter> set ys = set ys"
      by (intro card_subset_eq) auto
    then show "set ys \<subseteq> set xs"
      by blast
  next
    assume "set ys \<subseteq> set xs"
    then have "set ?i = set ys"
      using s by blast
    then show "length ?i = length ys"
      using d assms(2) by (metis distinct_card)
  qed
  then show ?thesis
    by (simp add: set_eq_def set_intersection_update_def list_all_iff)
qed

lemma rds_eq_intersection:
  assumes "distinct (items x)" and "distinct (items y)" and "selector x = selector y"
  shows "rds_eq (rds_intersection_update x y) y \<longleftrightarrow> set (items y) \<subseteq> set (items x)"
  using assms set_eq_intersection [OF assms(1,2)]
  by (simp add: rds_eq_def rds_intersection_update_def update_ttl_def selector_def)

text \<open>
  C3. In a writable transaction with well-formed references, and for every argument
  list: whenever \<open>delete_exact\<close> fails, the zone is what it was and every object that
  was in the heap is unchanged; whenever it succeeds, \<open>delete\<close> with the same
  arguments succeeds too and leaves a zone with the same contents. Once the arguments
  have been read, \<open>delete_exact\<close> either succeeds or fails with \<open>DeleteNotExact\<close>.
  When the arguments stand for a name and a record-set B (an RRset, a name with a
  record-set, or a name with one record), and a record-set E exists at the selector of
  B, it fails with \<open>DeleteNotExact\<close> exactly when the intersection of E and B is not
  equal to B, and succeeds exactly when it is equal; for record-sets without repeated
  members, equal means that every member of B is in E. When B is not empty and nothing
  exists at its selector, it fails with \<open>DeleteNotExact\<close>. When the arguments stand
  for a name and a selector, it fails with \<open>DeleteNotExact\<close> exactly when the lookup
  finds nothing, and succeeds otherwise. When they are a name alone, it fails with
  \<open>DeleteNotExact\<close> exactly when the name does not exist, and succeeds otherwise.
\<close>

theorem delete_exact_checks:
  assumes w: "\<not> read_only t" and ok: "heap_ok s" and args: "args_ok (heap s) args"
  shows
   "(\<forall>err. fst (delete_exact t args s) = Inl err \<longrightarrow>
        zone (snd (delete_exact t args s)) = zone s \<and>
        take (length (heap s)) (heap (snd (delete_exact t args s))) = heap s)
  \<and> (fst (delete_exact t args s) = Inr () \<longrightarrow>
        fst (delete t args s) = Inr () \<and>
        zone_view (snd (delete_exact t args s)) = zone_view (snd (delete t args s)))
  \<and> (\<forall>tg h1. delete_args ''delete_exact()'' args (heap s) = (Inr tg, h1) \<longrightarrow>
        (fst (delete_exact t args s) = Inr () \<longleftrightarrow>
           \<not> (\<exists>m. fst (delete_exact t args s) = Inl (DeleteNotExact m))))
  \<and> (\<forall>n b h1 e. delete_args ''delete_exact()'' args (heap s) = (Inr (ByRdataset n (Some b)), h1) \<and>
        lookup (s\<lparr>heap := h1\<rparr>) n (rdclass (h1 ! b)) (rdtype (h1 ! b)) (covers (h1 ! b)) = Some e \<longrightarrow>
        ((\<exists>m. fst (delete_exact t args s) = Inl (DeleteNotExact m)) \<longleftrightarrow>
           \<not> rds_eq (rds_intersection_update (h1 ! e) (h1 ! b)) (h1 ! b)) \<and>
        (fst (delete_exact t args s) = Inr () \<longleftrightarrow>
           rds_eq (rds_intersection_update (h1 ! e) (h1 ! b)) (h1 ! b)) \<and>
        (distinct (items (h1 ! e)) \<and> distinct (items (h1 ! b)) \<longrightarrow>
           (rds_eq (rds_intersection_update (h1 ! e) (h1 ! b)) (h1 ! b) \<longleftrightarrow>
              set (items (h1 ! b)) \<subseteq> set (items (h1 ! e)))))
  \<and> (\<forall>n b h1. delete_args ''delete_exact()'' args (heap s) = (Inr (ByRdataset n (Some b)), h1) \<and>
        items (h1 ! b) \<noteq> [] \<and>
        lookup (s\<lparr>heap := h1\<rparr>) n (rdclass (h1 ! b)) (rdtype (h1 ! b)) (covers (h1 ! b)) = None \<longrightarrow>
        (\<exists>m. fst (delete_exact t args s) = Inl (DeleteNotExact m)))
  \<and> (\<forall>n c ty cv h1. delete_args ''delete_exact()'' args (heap s) = (Inr (BySelector n c ty cv), h1) \<longrightarrow>
        ((\<exists>m. fst (delete_exact t args s) = Inl (DeleteNotExact m)) \<longleftrightarrow>
           lookup (s\<lparr>heap := h1\<rparr>) n c ty cv = None) \<and>
        (fst (delete_exact t args s) = Inr () \<longleftrightarrow> lookup (s\<lparr>heap := h1\<rparr>) n c ty cv \<noteq> None))
  \<and> (\<forall>n h1. delete_args ''delete_exact()'' args (heap s) = (Inr (ByRdataset n None), h1) \<longrightarrow>
        ((\<exists>m. fst (delete_exact t args s) = Inl (DeleteNotExact m)) \<longleftrightarrow>
           \<not> list_ex (\<lambda>x. fst x = n) (zone s)) \<and>
        (fst (delete_exact t args s) = Inr () \<longleftrightarrow> list_ex (\<lambda>x. fst x = n) (zone s)))"
proof (intro conjI allI impI)
  fix err
  assume "fst (delete_exact t args s) = Inl err"
  with w have u: "zone (snd (delete_exact t args s)) = zone s \<and>
         take (length (heap s)) (heap (snd (delete_exact t args s))) = heap s"
    by (rule delete_exact_fail_unchanged)
  from u show "zone (snd (delete_exact t args s)) = zone s" ..
  from u show "take (length (heap s)) (heap (snd (delete_exact t args s))) = heap s" ..
next
  assume "fst (delete_exact t args s) = Inr ()"
  with w ok args have v: "fst (delete t args s) = Inr () \<and>
         zone_view (snd (delete_exact t args s)) = zone_view (snd (delete t args s))"
    by (rule delete_exact_success_view)
  from v show "fst (delete t args s) = Inr ()" ..
  from v show "zone_view (snd (delete_exact t args s)) = zone_view (snd (delete t args s))" ..
next
  fix tg h1
  assume d: "delete_args ''delete_exact()'' args (heap s) = (Inr tg, h1)"
  show "fst (delete_exact t args s) = Inr () \<longleftrightarrow>
           \<not> (\<exists>m. fst (delete_exact t args s) = Inl (DeleteNotExact m))"
    unfolding delete_exact_target [OF w d] by (rule delete_store_success_iff)
next
  fix n b h1 e
  assume a: "delete_args ''delete_exact()'' args (heap s) = (Inr (ByRdataset n (Some b)), h1) \<and>
        lookup (s\<lparr>heap := h1\<rparr>) n (rdclass (h1 ! b)) (rdtype (h1 ! b)) (covers (h1 ! b)) = Some e"
  then have d: "delete_args ''delete_exact()'' args (heap s) = (Inr (ByRdataset n (Some b)), h1)"
    and l: "lookup (s\<lparr>heap := h1\<rparr>) n (rdclass (heap (s\<lparr>heap := h1\<rparr>) ! b))
              (rdtype (heap (s\<lparr>heap := h1\<rparr>) ! b)) (covers (heap (s\<lparr>heap := h1\<rparr>) ! b)) = Some e"
    by simp_all
  have b: "b < length (heap (s\<lparr>heap := h1\<rparr>))"
    using delete_args_ok [OF d args] by simp
  show f: "(\<exists>m. fst (delete_exact t args s) = Inl (DeleteNotExact m)) \<longleftrightarrow>
           \<not> rds_eq (rds_intersection_update (h1 ! e) (h1 ! b)) (h1 ! b)"
    using delete_store_exact_rdataset [OF b l, of "''delete_exact()''"]
    by (simp add: delete_exact_target [OF w d])
  show "fst (delete_exact t args s) = Inr () \<longleftrightarrow>
           rds_eq (rds_intersection_update (h1 ! e) (h1 ! b)) (h1 ! b)"
    using f delete_store_success_iff [of "''delete_exact()''" True "ByRdataset n (Some b)" "s\<lparr>heap := h1\<rparr>"]
    unfolding delete_exact_target [OF w d] by blast
  show "rds_eq (rds_intersection_update (h1 ! e) (h1 ! b)) (h1 ! b) \<longleftrightarrow>
              set (items (h1 ! b)) \<subseteq> set (items (h1 ! e))"
    if "distinct (items (h1 ! e)) \<and> distinct (items (h1 ! b))"
    using that lookup_Some(2) [OF l]
    by (intro rds_eq_intersection) (simp_all add: selector_def)
next
  fix n b h1
  assume a: "delete_args ''delete_exact()'' args (heap s) = (Inr (ByRdataset n (Some b)), h1) \<and>
        items (h1 ! b) \<noteq> [] \<and>
        lookup (s\<lparr>heap := h1\<rparr>) n (rdclass (h1 ! b)) (rdtype (h1 ! b)) (covers (h1 ! b)) = None"
  then have d: "delete_args ''delete_exact()'' args (heap s) = (Inr (ByRdataset n (Some b)), h1)"
    by simp
  show "\<exists>m. fst (delete_exact t args s) = Inl (DeleteNotExact m)"
    unfolding delete_exact_target [OF w d]
    using a by (intro delete_store_exact_missing) simp_all
next
  fix n c ty cv h1
  assume d: "delete_args ''delete_exact()'' args (heap s) = (Inr (BySelector n c ty cv), h1)"
  show f: "(\<exists>m. fst (delete_exact t args s) = Inl (DeleteNotExact m)) \<longleftrightarrow>
           lookup (s\<lparr>heap := h1\<rparr>) n c ty cv = None"
    by (simp add: delete_exact_target [OF w d] delete_store_exact_selector)
  show "fst (delete_exact t args s) = Inr () \<longleftrightarrow> lookup (s\<lparr>heap := h1\<rparr>) n c ty cv \<noteq> None"
    using f delete_store_success_iff [of "''delete_exact()''" True "BySelector n c ty cv" "s\<lparr>heap := h1\<rparr>"]
    unfolding delete_exact_target [OF w d] by simp
next
  fix n h1
  assume d: "delete_args ''delete_exact()'' args (heap s) = (Inr (ByRdataset n None), h1)"
  show f: "(\<exists>m. fst (delete_exact t args s) = Inl (DeleteNotExact m)) \<longleftrightarrow>
           \<not> list_ex (\<lambda>x. fst x = n) (zone s)"
    by (simp add: delete_exact_target [OF w d] delete_store_exact_name)
  show "fst (delete_exact t args s) = Inr () \<longleftrightarrow> list_ex (\<lambda>x. fst x = n) (zone s)"
    using f delete_store_success_iff [of "''delete_exact()''" True "ByRdataset n None" "s\<lparr>heap := h1\<rparr>"]
    unfolding delete_exact_target [OF w d] by simp
qed

text \<open>The theorem on two example zones. Where the record to delete is stored,
  \<open>delete_exact\<close> succeeds, as \<open>delete\<close> does, and the zone keeps the other address
  record and the mail record-set. Where it is not stored, \<open>delete_exact\<close> fails with
  \<open>DeleteNotExact\<close> and leaves the zone as it was.\<close>

lemma ab_state_exact_facts:
  "args_ok (heap ab_state) [AName www, AObj 2]"
  "delete_args ''delete_exact()'' [AName www, AObj 2] (heap ab_state) =
     (Inr (ByRdataset www (Some 2)), heap ab_state)"
  "ab_state\<lparr>heap := heap ab_state\<rparr> = ab_state"
  "\<not> rds_eq (rds_intersection_update (heap ab_state ! 0) (heap ab_state ! 2)) (heap ab_state ! 2)"
  "zone ab_state = [(www, 0), (www, 1)]"
  by (simp_all add: args_ok_def delete_args_def rdataset_from_args_def raise_if_not_empty_def
      ab_state_def mk_rdataset_def rds_eq_def rds_intersection_update_def
      update_ttl_def set_intersection_update_def set_eq_def a_rd_def)

lemma exact_state_facts:
  "heap_ok exact_state"
  "args_ok (heap exact_state) [AName www, AObj 2]"
  "delete_args ''delete_exact()'' [AName www, AObj 2] (heap exact_state) =
     (Inr (ByRdataset www (Some 2)), heap exact_state)"
  "exact_state\<lparr>heap := heap exact_state\<rparr> = exact_state"
  "rdclass (heap exact_state ! 2) = 1" "rdtype (heap exact_state ! 2) = 1"
  "covers (heap exact_state ! 2) = 0"
  "lookup exact_state www 1 1 0 = Some 0"
  "rds_eq (rds_intersection_update (heap exact_state ! 0) (heap exact_state ! 2)) (heap exact_state ! 2)"
  by (simp_all add: heap_ok_def args_ok_def delete_args_def rdataset_from_args_def
      raise_if_not_empty_def exact_state_def mk_rdataset_def rds_eq_def rds_intersection_update_def
      update_ttl_def set_intersection_update_def set_eq_def a_rd_def lookup_def matches_def
      selector_def)

lemma exact_state_delete:
  "zone_view (snd (delete writer [AName www, AObj 2] exact_state)) =
     [(www, mk_rdataset Rdataset_cls None 1 300 [a_rd ''10.0.0.1'']),
      (www, mk_rdataset Rdataset_cls None 15 300 [mx_rd ''mail''])]"
  by (simp add: delete_def check_read_only_def writer_def delete_impl_def delete_args_def
      rdataset_from_args_def raise_if_not_empty_def delete_store_def truthy_def get_rdataset_def
      lookup_def matches_def selector_def delete_difference_def Rdataset_difference_def alloc_def
      rds_difference_update_def set_difference_update_def put_rdataset_simps zone_view_def
      exact_state_def mk_rdataset_def a_rd_def mx_rd_def)

theorem delete_exact_checks_witness:
  "fst (delete_exact writer [AName www, AObj 2] exact_state) = Inr () \<and>
   fst (delete writer [AName www, AObj 2] exact_state) = Inr () \<and>
   zone_view (snd (delete_exact writer [AName www, AObj 2] exact_state)) =
     [(www, mk_rdataset Rdataset_cls None 1 300 [a_rd ''10.0.0.1'']),
      (www, mk_rdataset Rdataset_cls None 15 300 [mx_rd ''mail''])] \<and>
   (\<exists>m. fst (delete_exact writer [AName www, AObj 2] ab_state) = Inl (DeleteNotExact m)) \<and>
   zone (snd (delete_exact writer [AName www, AObj 2] ab_state)) = [(www, 0), (www, 1)]"
proof -
  note S = delete_exact_checks [OF ab_state_facts(1) exact_state_facts(1,2)]
  from S exact_state_facts(3)
  have "\<forall>e. lookup (exact_state\<lparr>heap := heap exact_state\<rparr>) www (rdclass (heap exact_state ! 2))
                  (rdtype (heap exact_state ! 2)) (covers (heap exact_state ! 2)) = Some e \<longrightarrow>
        (fst (delete_exact writer [AName www, AObj 2] exact_state) = Inr () \<longleftrightarrow>
           rds_eq (rds_intersection_update (heap exact_state ! e) (heap exact_state ! 2))
             (heap exact_state ! 2))"
    by blast
  then have ok: "fst (delete_exact writer [AName www, AObj 2] exact_state) = Inr ()"
    unfolding exact_state_facts(4-7)
    using exact_state_facts(8,9) by blast
  with S have v: "fst (delete writer [AName www, AObj 2] exact_state) = Inr () \<and>
        zone_view (snd (delete_exact writer [AName www, AObj 2] exact_state)) =
        zone_view (snd (delete writer [AName www, AObj 2] exact_state))"
    by blast
  note T = delete_exact_checks [OF ab_state_facts(1,2) ab_state_exact_facts(1)]
  from T ab_state_exact_facts(2)
  have "\<forall>e. lookup (ab_state\<lparr>heap := heap ab_state\<rparr>) www (rdclass (heap ab_state ! 2))
                  (rdtype (heap ab_state ! 2)) (covers (heap ab_state ! 2)) = Some e \<longrightarrow>
        ((\<exists>m. fst (delete_exact writer [AName www, AObj 2] ab_state) = Inl (DeleteNotExact m)) \<longleftrightarrow>
           \<not> rds_eq (rds_intersection_update (heap ab_state ! e) (heap ab_state ! 2)) (heap ab_state ! 2))"
    by blast
  then have f: "\<exists>m. fst (delete_exact writer [AName www, AObj 2] ab_state) = Inl (DeleteNotExact m)"
    unfolding ab_state_exact_facts(3) ab_state_facts(4-6)
    using ab_state_facts(7) ab_state_exact_facts(4) by blast
  with T have z: "zone (snd (delete_exact writer [AName www, AObj 2] ab_state)) = zone ab_state"
    by blast
  from ok v f z show ?thesis
    unfolding ab_state_exact_facts(5) exact_state_delete by blast
qed

subsection \<open>Deletion\<close>

lemma lookup_filter_other:
  "lookup (s\<lparr>zone := filter (\<lambda>x. \<not> matches (heap s) n c ty cv x) (zone s)\<rparr>) n c ty cv = None"
proof -
  have "find (matches (heap s) n c ty cv) (filter (\<lambda>x. \<not> matches (heap s) n c ty cv x) (zone s)) = None"
    by (simp add: find_None_iff)
  then show ?thesis
    by (simp add: lookup_def)
qed

lemma lookup_cong: "heap s = heap s' \<Longrightarrow> zone s = zone s' \<Longrightarrow> lookup s = lookup s'"
  by (intro ext) (simp add: lookup_def)

text \<open>What \<open>delete\<close> does with a name and a non-empty record-set B: nothing when nothing
  is stored at the selector of B; otherwise the stored record-set E is replaced by the
  difference of E and B, or removed when the difference is empty.\<close>

lemma delete_record_set:
  assumes w: "\<not> read_only t" and ok: "heap_ok s" and b: "b < length (heap s)"
    and ne: "items (heap s ! b) \<noteq> []"
  shows "fst (delete t [AName n, AObj b] s) = Inr ()"
    and "lookup s n (rdclass (heap s ! b)) (rdtype (heap s ! b)) (covers (heap s ! b)) = None \<Longrightarrow>
           zone (snd (delete t [AName n, AObj b] s)) = zone s \<and>
           heap (snd (delete t [AName n, AObj b] s)) = heap s"
    and "lookup s n (rdclass (heap s ! b)) (rdtype (heap s ! b)) (covers (heap s ! b)) = Some e \<Longrightarrow>
           set_difference_update (items (heap s ! e)) (items (heap s ! b)) = [] \<Longrightarrow>
           lookup (snd (delete t [AName n, AObj b] s)) n (rdclass (heap s ! b)) (rdtype (heap s ! b))
             (covers (heap s ! b)) = None"
    and "lookup s n (rdclass (heap s ! b)) (rdtype (heap s ! b)) (covers (heap s ! b)) = Some e \<Longrightarrow>
           set_difference_update (items (heap s ! e)) (items (heap s ! b)) \<noteq> [] \<Longrightarrow>
           lookup (snd (delete t [AName n, AObj b] s)) n (rdclass (heap s ! b)) (rdtype (heap s ! b))
             (covers (heap s ! b)) = Some (length (heap s)) \<and>
           heap (snd (delete t [AName n, AObj b] s)) ! length (heap s) =
             rds_difference_update (heap s ! e) (heap s ! b)"
proof -
  let ?c = "rdclass (heap s ! b)" and ?ty = "rdtype (heap s ! b)" and ?cv = "covers (heap s ! b)"
  have d: "delete t [AName n, AObj b] s = delete_store ''delete()'' False (ByRdataset n (Some b)) s"
    using w
    by (simp add: delete_def check_read_only_def delete_impl_def delete_args_def
        rdataset_from_args_def raise_if_not_empty_def)
  show "fst (delete t [AName n, AObj b] s) = Inr ()"
    by (simp add: d delete_store_not_exact)
  show "zone (snd (delete t [AName n, AObj b] s)) = zone s \<and>
        heap (snd (delete t [AName n, AObj b] s)) = heap s"
    if "lookup s n ?c ?ty ?cv = None"
    using that ne by (simp add: d delete_store_def truthy_def get_rdataset_def)
  show "lookup (snd (delete t [AName n, AObj b] s)) n ?c ?ty ?cv = None"
    if l: "lookup s n ?c ?ty ?cv = Some e"
      and "set_difference_update (items (heap s ! e)) (items (heap s ! b)) = []"
  proof -
    have sel: "(rdclass (heap s ! e), rdtype (heap s ! e), covers (heap s ! e)) = (?c, ?ty, ?cv)"
      using lookup_Some(2) [OF l] by (simp add: selector_def)
    let ?h = "heap s @ [rds_difference_update (heap s ! e) (heap s ! b)]"
    have "lookup (s\<lparr>heap := ?h, zone := filter (\<lambda>x. \<not> matches ?h n ?c ?ty ?cv x) (zone s)\<rparr>)
            n ?c ?ty ?cv = None"
      using lookup_filter_other [of "s\<lparr>heap := ?h\<rparr>" n ?c ?ty ?cv] by simp
    moreover have "lookup (snd (delete t [AName n, AObj b] s))
             = lookup (s\<lparr>heap := ?h, zone := filter (\<lambda>x. \<not> matches ?h n ?c ?ty ?cv x) (zone s)\<rparr>)"
      using that ne sel
      by (intro lookup_cong)
         (simp_all add: d delete_store_def truthy_def get_rdataset_def delete_difference_def
            Rdataset_difference_def alloc_def rds_difference_update_def delete_rdataset_simps)
    ultimately show ?thesis
      by simp
  qed
  show "lookup (snd (delete t [AName n, AObj b] s)) n ?c ?ty ?cv = Some (length (heap s)) \<and>
        heap (snd (delete t [AName n, AObj b] s)) ! length (heap s) =
          rds_difference_update (heap s ! e) (heap s ! b)"
    if l: "lookup s n ?c ?ty ?cv = Some e"
      and "set_difference_update (items (heap s ! e)) (items (heap s ! b)) \<noteq> []"
  proof -
    have sel: "selector (heap s ! e) = (?c, ?ty, ?cv)"
      using l by (rule lookup_Some(2))
    have z: "zone (snd (delete t [AName n, AObj b] s)) =
               (n, length (heap s)) #
               filter (\<lambda>x. \<not> matches (heap s @ [rds_difference_update (heap s ! e) (heap s ! b)]) n
                              (rdclass (heap s ! e)) (rdtype (heap s ! e)) (covers (heap s ! e)) x) (zone s)"
      and h: "heap (snd (delete t [AName n, AObj b] s)) =
               heap s @ [rds_difference_update (heap s ! e) (heap s ! b)]"
      using that ne
      by (simp_all add: d delete_store_def truthy_def get_rdataset_def delete_difference_def
            Rdataset_difference_def alloc_def rds_difference_update_def put_rdataset_simps)
    have "lookup (snd (delete t [AName n, AObj b] s)) n ?c ?ty ?cv = Some (length (heap s))"
      using sel by (intro lookup_head [OF z]) (simp add: h selector_def rds_difference_update_def)
    then show ?thesis
      by (simp add: h)
  qed
qed

text \<open>With the name alone, \<open>delete\<close> removes every record-set of the name.\<close>

lemma delete_name_only:
  assumes "\<not> read_only t"
  shows "delete t [AName n] s = (Inr (), delete_name s n)"
  using assms
  by (simp add: delete_def check_read_only_def delete_impl_def delete_args_def
      rdataset_from_args_def raise_if_not_empty_def delete_store_def truthy_def)

text \<open>
  C6. \<open>delete\<close> with a name and an empty record-set does not compute a difference:
  the empty record-set counts as false in \<^verbatim>\<open>if rdataset:\<close>, so the call takes the branch
  meant for the name alone and deletes the whole name. In the example zone the address
  record-set and the mail record-set of \<open>www\<close> are both gone, and the only backend call
  is the delete of the name. For a non-empty record-set, and for the name alone,
  \<open>delete\<close> does what the claim says (\<open>delete_record_set\<close>, \<open>delete_name_only\<close>).
\<close>

theorem delete_empty_rdataset_deletes_name:
  "fst (delete writer [AName www, AObj 2] empty_del_state) = Inr () \<and>
   zone (snd (delete writer [AName www, AObj 2] empty_del_state)) = [] \<and>
   calls (snd (delete writer [AName www, AObj 2] empty_del_state)) = [DeleteName www]"
  by (simp add: delete_def check_read_only_def writer_def delete_impl_def delete_args_def
      rdataset_from_args_def raise_if_not_empty_def delete_store_def truthy_def
      empty_del_state_def mk_rdataset_def delete_name_simps)

end
